theory Spec2Isabelle
  imports Main
begin

section \<open>Python values, exceptions and log records\<close>

text \<open>
  A class object is identified by a name (\<open>tname\<close>); two classes may share their
  \<open>__name__\<close>, which is a field of the class description below. Instances live in a heap
  and are referred to by their address, so that identity of instances can be stated.
\<close>

type_synonym tname = string

datatype pyval = VNone | VStr string | VInt int | VRef nat

text \<open>
  Exceptions. The handlers of the program distinguish \<open>ValueError\<close>, \<open>ImportError\<close> and
  \<open>AttributeError\<close> (a subclass counts as its base class); every exception class that no
  handler of the container names is \<open>OtherError\<close> with its class name.
\<close>

datatype exn =
    ValueError string
  | ImportError string
  | AttributeError string
  | TypeError string
  | NotImplementedError string
  | FileNotFoundError string
  | OtherError string string

fun exn_str :: "exn \<Rightarrow> string" where
  "exn_str (ValueError m) = m"
| "exn_str (ImportError m) = m"
| "exn_str (AttributeError m) = m"
| "exn_str (TypeError m) = m"
| "exn_str (NotImplementedError m) = m"
| "exn_str (FileNotFoundError m) = m"
| "exn_str (OtherError c m) = m"

fun is_ValueError :: "exn \<Rightarrow> bool" where
  "is_ValueError (ValueError m) = True"
| "is_ValueError e = False"

datatype level = DEBUG | INFO | WARNING | ERROR | CRITICAL

section \<open>Classes as the container inspects them\<close>

datatype pkind =
    POSITIONAL_ONLY
  | POSITIONAL_OR_KEYWORD
  | VAR_POSITIONAL
  | KEYWORD_ONLY
  | VAR_KEYWORD

text \<open>
  One entry of \<open>inspect.signature(cls.__init__).parameters\<close>. \<open>None\<close> in \<open>annotation\<close> and
  in \<open>pdefault\<close> is \<open>inspect.Parameter.empty\<close>; a default of Python's \<open>None\<close> is
  \<open>Some VNone\<close>.
\<close>

record param =
  pname :: string
  kind :: pkind
  annotation :: "tname option"
  pdefault :: "pyval option"

text \<open>
  What the container reads of a class: \<open>__name__\<close>, \<open>__mro__\<close> (for \<open>issubclass\<close>),
  \<open>__abstractmethods__\<close> (for \<open>inspect.isabstract\<close>), the names of the operations it
  provides, the parameters of \<open>__init__\<close> with the receiver included, and the effect of
  calling the class with keyword arguments: the fields of the new instance or the
  exception raised. The constructor may test \<open>isinstance\<close> of its arguments, which it gets
  as the first argument. \<open>inspect.signature\<close> is taken to succeed on \<open>__init__\<close>, and
  \<open>issubclass\<close> to be membership in \<open>__mro__\<close> (no class registers virtual subclasses).
\<close>

record pyclass =
  cname :: string
  mro :: "tname list"
  abstractmethods :: "string list"
  methods :: "string list"
  init_params :: "param list"
  construct :: "(pyval \<Rightarrow> tname \<Rightarrow> bool) \<Rightarrow> (string \<times> pyval) list \<Rightarrow> exn + (string \<times> pyval) list"

type_synonym ctable = "tname \<Rightarrow> pyclass"

definition isabstract :: "ctable \<Rightarrow> tname \<Rightarrow> bool" where
  "isabstract ct c = (abstractmethods (ct c) \<noteq> [])"

definition issubclass :: "ctable \<Rightarrow> tname \<Rightarrow> tname \<Rightarrow> bool" where
  "issubclass ct c b = (b \<in> set (mro (ct c)))"

section \<open>The world: registrations, heap and log\<close>

record obj =
  obj_class :: tname
  obj_fields :: "(string \<times> pyval) list"

text \<open>
  \<open>registrations\<close> is \<open>DependencyContainer._registrations\<close>, \<open>heap\<close> holds the instances
  created so far (the address of an instance is its index) and \<open>log\<close> the records emitted
  through the logger of the container's module, oldest first.
\<close>

record world =
  registrations :: "tname \<rightharpoonup> tname"
  heap :: "obj list"
  log :: "(level \<times> string) list"

definition emit :: "level \<Rightarrow> string \<Rightarrow> world \<Rightarrow> world" where
  "emit l m w = w\<lparr>log := log w @ [(l, m)]\<rparr>"

definition new_container :: "obj list \<Rightarrow> (level \<times> string) list \<Rightarrow> world" where
  "new_container h lg =
     emit DEBUG ''DependencyContainer initialized.''
       \<lparr>registrations = Map.empty, heap = h, log = lg\<rparr>"

fun type_of :: "obj list \<Rightarrow> pyval \<Rightarrow> tname" where
  "type_of h VNone = ''NoneType''"
| "type_of h (VStr s) = ''str''"
| "type_of h (VInt i) = ''int''"
| "type_of h (VRef a) = (if a < length h then obj_class (h ! a) else ''object'')"

definition isinstance :: "ctable \<Rightarrow> obj list \<Rightarrow> pyval \<Rightarrow> tname \<Rightarrow> bool" where
  "isinstance ct h v c = issubclass ct (type_of h v) c"

section \<open>Dictionaries kept in insertion order\<close>

fun dict_set :: "(string \<times> pyval) list \<Rightarrow> string \<Rightarrow> pyval \<Rightarrow> (string \<times> pyval) list" where
  "dict_set [] k v = [(k, v)]"
| "dict_set ((k', v') # kvs) k v =
     (if k' = k then (k, v) # kvs else (k', v') # dict_set kvs k v)"

fun join_keys :: "string list \<Rightarrow> string" where
  "join_keys [] = []"
| "join_keys [k] = [CHR 0x27] @ k @ [CHR 0x27]"
| "join_keys (k # k' # ks) = [CHR 0x27] @ k @ [CHR 0x27] @ '', '' @ join_keys (k' # ks)"

definition repr_keys :: "(string \<times> pyval) list \<Rightarrow> string" where
  "repr_keys d = ''['' @ join_keys (map fst d) @ '']''"

section \<open>DependencyContainer.resolve\<close>

type_synonym 'a outcome = "((exn + 'a) \<times> world) option"

definition quoted :: "string \<Rightarrow> string" where
  "quoted s = [CHR 0x27] @ s @ [CHR 0x27]"

definition msg_unregistered :: "string \<Rightarrow> string" where
  "msg_unregistered n = ''No concrete implementation registered for abstraction: '' @ n"

definition msg_cannot_resolve :: "string \<Rightarrow> string \<Rightarrow> string \<Rightarrow> string" where
  "msg_cannot_resolve name cls why =
     ''Cannot resolve dependency '' @ quoted name @ '' for '' @ quoted cls @ '': '' @ why"

definition msg_missing_hint :: string where
  "msg_missing_hint = ''Missing type hint or default value.''"

definition msg_optional :: "string \<Rightarrow> string \<Rightarrow> string" where
  "msg_optional name cls =
     ''Optional dependency '' @ quoted name @ '' for '' @ quoted cls
       @ '' could not be resolved, using default value.''"

text \<open>
  The loop over the constructor's parameters (lines 81 to 103). \<open>rec\<close> is the recursive
  call \<open>self.resolve\<close>; \<open>None\<close> is a call that does not return. \<open>cls\<close> is
  \<open>concrete_class.__name__\<close> and \<open>deps\<close> the dictionary \<open>dependencies\<close>.
\<close>

fun resolve_deps ::
  "(tname \<Rightarrow> world \<Rightarrow> pyval outcome) \<Rightarrow> string \<Rightarrow> param list
     \<Rightarrow> (string \<times> pyval) list \<Rightarrow> world \<Rightarrow> ((string \<times> pyval) list) outcome" where
  "resolve_deps rec cls [] deps w = Some (Inr deps, w)"
| "resolve_deps rec cls (p # ps) deps w =
     (if pname p = ''self'' then resolve_deps rec cls ps deps w
      else if kind p = POSITIONAL_OR_KEYWORD \<and> annotation p \<noteq> None then
        (case rec (the (annotation p)) w of
           None \<Rightarrow> None
         | Some (Inr v, w') \<Rightarrow> resolve_deps rec cls ps (dict_set deps (pname p) v) w'
         | Some (Inl (ValueError e), w') \<Rightarrow>
             (case pdefault p of
                None \<Rightarrow> Some (Inl (ValueError (msg_cannot_resolve (pname p) cls e)), w')
              | Some d \<Rightarrow>
                  resolve_deps rec cls ps (dict_set deps (pname p) d)
                    (emit WARNING (msg_optional (pname p) cls) w'))
         | Some (Inl e, w') \<Rightarrow> Some (Inl e, w'))
      else
        (case pdefault p of
           Some d \<Rightarrow> resolve_deps rec cls ps (dict_set deps (pname p) d) w
         | None \<Rightarrow>
             Some (Inl (ValueError (msg_cannot_resolve (pname p) cls msg_missing_hint)), w)))"

definition target :: "world \<Rightarrow> tname \<Rightarrow> tname" where
  "target w t = (case registrations w t of Some c \<Rightarrow> c | None \<Rightarrow> t)"

text \<open>
  The call \<open>concrete_class(**dependencies)\<close>: a new object of that class at a fresh
  address, or the exception of the constructor. Classes are taken to create their
  instances with \<open>object.__new__\<close>.
\<close>

definition instantiate :: "ctable \<Rightarrow> tname \<Rightarrow> (string \<times> pyval) list \<Rightarrow> world \<Rightarrow> (exn + pyval) \<times> world" where
  "instantiate ct c deps w =
     (case construct (ct c) (isinstance ct (heap w)) deps of
        Inl e \<Rightarrow> (Inl e, w)
      | Inr fs \<Rightarrow>
          (Inr (VRef (length (heap w))),
           w\<lparr>heap := heap w @ [\<lparr>obj_class = c, obj_fields = fs\<rparr>]\<rparr>))"

text \<open>
  \<open>resolve\<close> with a bound on the depth of the recursion: \<open>None\<close> says that the bound was
  reached, so a call that returns is \<open>Some\<close> for a large enough bound and a recursion
  without end is \<open>None\<close> for every bound.
\<close>

text \<open>Lines 105 and 106: the debug record and the call of the constructor.\<close>

definition construct_with ::
  "ctable \<Rightarrow> tname \<Rightarrow> ((string \<times> pyval) list) outcome \<Rightarrow> pyval outcome" where
  "construct_with ct concrete_class r =
     (case r of
        None \<Rightarrow> None
      | Some (Inl e, w') \<Rightarrow> Some (Inl e, w')
      | Some (Inr deps, w') \<Rightarrow>
          Some (instantiate ct concrete_class deps
                  (emit DEBUG (''Resolving '' @ cname (ct concrete_class)
                     @ '' with dependencies: '' @ repr_keys deps) w')))"

primrec resolve :: "nat \<Rightarrow> ctable \<Rightarrow> tname \<Rightarrow> world \<Rightarrow> pyval outcome" where
  "resolve 0 ct = (\<lambda>abstraction w. None)"
| "resolve (Suc n) ct = (\<lambda>abstraction w.
     (let concrete_class = target w abstraction in
      if isabstract ct concrete_class then
        Some (Inl (ValueError (msg_unregistered (cname (ct abstraction)))), w)
      else
        construct_with ct concrete_class
          (resolve_deps (resolve n ct) (cname (ct concrete_class))
             (init_params (ct concrete_class)) [] w)))"

section \<open>DependencyContainer.register\<close>

text \<open>
  What \<open>getattr(module, name)\<close> can give: a class or something else. \<open>modules\<close> is the
  effect of \<open>importlib.import_module\<close>: the attributes of the module, or the exception of
  the import.
\<close>

datatype attr = AClass tname | AOther

type_synonym modules = "string \<Rightarrow> exn + (string \<times> attr) list"

text \<open>\<open>path.rsplit('.', 1)\<close> when it has two parts; \<open>None\<close> when \<open>path\<close> has no dot.\<close>

definition rsplit_dot :: "string \<Rightarrow> (string \<times> string) option" where
  "rsplit_dot path =
     (if CHR ''.'' \<in> set path then
        Some (rev (tl (dropWhile (\<lambda>c. c \<noteq> CHR ''.'') (rev path))),
              rev (takeWhile (\<lambda>c. c \<noteq> CHR ''.'') (rev path)))
      else None)"

definition load_attr :: "modules \<Rightarrow> string \<Rightarrow> exn + attr" where
  "load_attr mods path =
     (case rsplit_dot path of
        None \<Rightarrow> Inl (ValueError ''not enough values to unpack (expected 2, got 1)'')
      | Some (module_path, class_name) \<Rightarrow>
          (case mods module_path of
             Inl e \<Rightarrow> Inl e
           | Inr attrs \<Rightarrow>
               (case map_of attrs class_name of
                  None \<Rightarrow> Inl (AttributeError (''module '' @ quoted module_path
                              @ '' has no attribute '' @ quoted class_name))
                | Some a \<Rightarrow> Inr a)))"

fun caught_on_load :: "exn \<Rightarrow> bool" where
  "caught_on_load (ImportError m) = True"
| "caught_on_load (AttributeError m) = True"
| "caught_on_load (ValueError m) = True"
| "caught_on_load e = False"

definition msg_failed_load :: "string \<Rightarrow> exn \<Rightarrow> string" where
  "msg_failed_load path e =
     ''Failed to load concrete implementation '' @ quoted path
       @ ''. Please check the path. Error: '' @ exn_str e"

definition msg_not_impl :: "string \<Rightarrow> string \<Rightarrow> string" where
  "msg_not_impl conc abstr =
     ''Concrete implementation '' @ conc @ '' does not implement abstraction '' @ abstr @ ''.''"

definition register :: "ctable \<Rightarrow> modules \<Rightarrow> tname \<Rightarrow> string \<Rightarrow> world \<Rightarrow> (exn + unit) \<times> world" where
  "register ct mods abstraction path w =
     (case load_attr mods path of
        Inl e \<Rightarrow>
          (if caught_on_load e then (Inl (ValueError (msg_failed_load path e)), w)
           else (Inl e, w))
      | Inr AOther \<Rightarrow> (Inl (TypeError ''issubclass() arg 1 must be a class''), w)
      | Inr (AClass concrete_implementation) \<Rightarrow>
          (if \<not> issubclass ct concrete_implementation abstraction then
             (Inl (ValueError (msg_not_impl (cname (ct concrete_implementation))
                                  (cname (ct abstraction)))), w)
           else
             (Inr (),
              emit DEBUG (''Registered '' @ cname (ct concrete_implementation) @ '' for ''
                            @ cname (ct abstraction))
                (w\<lparr>registrations := (registrations w)(abstraction \<mapsto> concrete_implementation)\<rparr>))))"

section \<open>The classes of the application\<close>

subsection \<open>Paths\<close>

text \<open>\<open>os.path.dirname\<close> and \<open>os.path.join\<close> of \<open>posixpath\<close>.\<close>

definition dirname :: "string \<Rightarrow> string" where
  "dirname p =
     (let head = rev (dropWhile (\<lambda>c. c \<noteq> CHR ''/'') (rev p)) in
      if head \<noteq> [] \<and> head \<noteq> replicate (length head) CHR ''/''
      then rev (dropWhile (\<lambda>c. c = CHR ''/'') (rev head))
      else head)"

definition join_step :: "string \<Rightarrow> string \<Rightarrow> string" where
  "join_step path b =
     (if b \<noteq> [] \<and> hd b = CHR ''/'' then b
      else if path = [] \<or> last path = CHR ''/'' then path @ b
      else path @ ''/'' @ b)"

definition path_join :: "string \<Rightarrow> string list \<Rightarrow> string" where
  "path_join a ps = foldl join_step a ps"

subsection \<open>Built-in classes and the storage contract\<close>

definition self_param :: param where
  "self_param =
     \<lparr>pname = ''self'', kind = POSITIONAL_OR_KEYWORD, annotation = None, pdefault = None\<rparr>"

definition object_init_params :: "param list" where
  "object_init_params =
     [\<lparr>pname = ''self'', kind = POSITIONAL_ONLY, annotation = None, pdefault = None\<rparr>,
      \<lparr>pname = ''args'', kind = VAR_POSITIONAL, annotation = None, pdefault = None\<rparr>,
      \<lparr>pname = ''kwargs'', kind = VAR_KEYWORD, annotation = None, pdefault = None\<rparr>]"

text \<open>
  A class that defines neither \<open>__init__\<close> nor abstract methods: its \<open>__init__\<close> is
  \<open>object.__init__\<close>, whose signature is \<open>(self, /, *args, **kwargs)\<close>, and it takes no
  arguments.
\<close>

definition plain_class :: "string \<Rightarrow> tname list \<Rightarrow> pyclass" where
  "plain_class n bases =
     \<lparr>cname = n, mro = bases, abstractmethods = [], methods = [],
      init_params = object_init_params,
      construct = (\<lambda>isinst kw. if kw = [] then Inr []
                     else Inl (TypeError (n @ ''() takes no arguments'')))\<rparr>"

definition c_object :: tname where "c_object = ''object''"
definition c_str :: tname where "c_str = ''str''"
definition c_ABC :: tname where "c_ABC = ''abc.ABC''"
definition c_ITaskRepository :: tname where
  "c_ITaskRepository = ''business.interfaces.ITaskRepository.ITaskRepository''"
definition c_CsvTaskRepository :: tname where
  "c_CsvTaskRepository = ''data.csv_task_repository.CsvTaskRepository''"
definition c_TaskManagerService :: tname where
  "c_TaskManagerService = ''business.task_manager_service.TaskManagerService''"

definition repository_operations :: "string list" where
  "repository_operations =
     [''get_all_tasks'', ''add_task'', ''get_task_by_id'', ''update_task'', ''delete_task'']"

definition ITaskRepository_class :: pyclass where
  "ITaskRepository_class =
     \<lparr>cname = ''ITaskRepository'',
      mro = [c_ITaskRepository, c_ABC, c_object],
      abstractmethods = repository_operations,
      methods = repository_operations,
      init_params = object_init_params,
      construct = (\<lambda>isinst kw. Inl (TypeError
        ''Can't instantiate abstract class ITaskRepository with abstract methods''))\<rparr>"

subsection \<open>CsvTaskRepository and TaskManagerService\<close>

fun truthy :: "pyval \<Rightarrow> bool" where
  "truthy VNone = False"
| "truthy (VStr s) = (s \<noteq> [])"
| "truthy (VInt i) = (i \<noteq> 0)"
| "truthy (VRef a) = True"

text \<open>
  \<open>module_file\<close> is \<open>os.path.abspath(__file__)\<close> of \<open>csv_task_repository.py\<close>, a parameter
  of the model.
\<close>

definition default_file_path :: "string \<Rightarrow> string" where
  "default_file_path module_file =
     (let current_dir = dirname module_file;
          project_root = dirname (dirname current_dir)
      in path_join project_root [''data'', ''csv'', ''sample_data.csv''])"

definition CsvTaskRepository_init ::
  "string \<Rightarrow> (pyval \<Rightarrow> tname \<Rightarrow> bool) \<Rightarrow> (string \<times> pyval) list \<Rightarrow> exn + (string \<times> pyval) list" where
  "CsvTaskRepository_init module_file isinst kw =
     (if \<exists>k \<in> set (map fst kw). k \<noteq> ''file_path'' then
        Inl (TypeError ''__init__() got an unexpected keyword argument'')
      else
        (let file_path = (case map_of kw ''file_path'' of None \<Rightarrow> VNone | Some v \<Rightarrow> v) in
         Inr [(''file_path'',
               if truthy file_path then file_path
               else VStr (default_file_path module_file))]))"

definition CsvTaskRepository_class :: "string \<Rightarrow> pyclass" where
  "CsvTaskRepository_class module_file =
     \<lparr>cname = ''CsvTaskRepository'',
      mro = [c_CsvTaskRepository, c_ITaskRepository, c_ABC, c_object],
      abstractmethods = [],
      methods = ''__init__'' # repository_operations,
      init_params =
        [self_param,
         \<lparr>pname = ''file_path'', kind = POSITIONAL_OR_KEYWORD, annotation = Some c_str,
          pdefault = Some VNone\<rparr>],
      construct = CsvTaskRepository_init module_file\<rparr>"

definition TaskManagerService_init ::
  "(pyval \<Rightarrow> tname \<Rightarrow> bool) \<Rightarrow> (string \<times> pyval) list \<Rightarrow> exn + (string \<times> pyval) list" where
  "TaskManagerService_init isinst kw =
     (if \<exists>k \<in> set (map fst kw). k \<noteq> ''task_repository'' then
        Inl (TypeError ''__init__() got an unexpected keyword argument'')
      else
        (case map_of kw ''task_repository'' of
           None \<Rightarrow> Inl (TypeError
             ''__init__() missing 1 required positional argument: 'task_repository' '')
         | Some task_repository \<Rightarrow>
             (if \<not> isinst task_repository c_ITaskRepository then
                Inl (TypeError ''task_repository must be an instance of ITaskRepository.'')
              else Inr [(''_task_repository'', task_repository)])))"

definition TaskManagerService_class :: pyclass where
  "TaskManagerService_class =
     \<lparr>cname = ''TaskManagerService'',
      mro = [c_TaskManagerService, c_object],
      abstractmethods = [],
      methods = [''__init__'', ''get_all_tasks'', ''get_task_by_id'', ''add_new_task'',
                 ''mark_task_complete'', ''delete_task_by_id''],
      init_params =
        [self_param,
         \<lparr>pname = ''task_repository'', kind = POSITIONAL_OR_KEYWORD,
          annotation = Some c_ITaskRepository, pdefault = None\<rparr>],
      construct = TaskManagerService_init\<rparr>"

text \<open>
  The class table of the application. Every other name stands for a class that defines
  nothing of its own.
\<close>

definition taskbuddy_classes :: "string \<Rightarrow> ctable" where
  "taskbuddy_classes module_file c =
     (if c = c_ITaskRepository then ITaskRepository_class
      else if c = c_CsvTaskRepository then CsvTaskRepository_class module_file
      else if c = c_TaskManagerService then TaskManagerService_class
      else if c = c_object then plain_class c [c_object]
      else plain_class c [c, c_object])"

definition taskbuddy_modules :: modules where
  "taskbuddy_modules m =
     (if m = ''data.csv_task_repository'' then
        Inr [(''ITaskRepository'', AClass c_ITaskRepository),
             (''CsvTaskRepository'', AClass c_CsvTaskRepository),
             (''logger'', AOther)]
      else if m = ''business.task_manager_service'' then
        Inr [(''ITaskRepository'', AClass c_ITaskRepository),
             (''TaskManagerService'', AClass c_TaskManagerService),
             (''logger'', AOther)]
      else Inl (ImportError (''No module named '' @ quoted m)))"

text \<open>\<open>configure_dependencies\<close> of \<open>main.py\<close>.\<close>

definition configure_dependencies :: "ctable \<Rightarrow> modules \<Rightarrow> world \<Rightarrow> (exn + unit) \<times> world" where
  "configure_dependencies ct mods container =
     register ct mods c_ITaskRepository ''data.csv_task_repository.CsvTaskRepository'' container"

section \<open>The operations of CsvTaskRepository\<close>

text \<open>
  Modelled from the spec: the task record of \<open>business/task.py\<close>, which is not among the
  sources: an identifier, a title and a status. The identifiers (\<open>uuid.UUID\<close>) and the
  statuses (\<open>TaskStatus\<close>) are type parameters, and their parsers are parameters of the
  operations: \<open>uuid_of\<close> is \<open>uuid.UUID(s)\<close> and \<open>status_of\<close> is \<open>TaskStatus[s]\<close>, with
  \<open>None\<close> for the exception they raise.
\<close>

record ('u, 's) task =
  task_id :: 'u
  title :: string
  status :: 's

record CsvTaskRepository =
  file_path :: string

text \<open>
  What opening the file and reading it with \<open>csv.DictReader\<close> yields: the first line, the
  field names (\<open>[]\<close> when there are none) and the rows; a row maps a field name to its
  value, \<open>Some None\<close> when the row is too short for the field. A path is absent from the
  file system, or it cannot be opened, or it has such a content.
\<close>

record csv_source =
  first_line :: string
  fieldnames :: "string list"
  rows :: "(string \<Rightarrow> string option option) list"

type_synonym filesystem = "string \<Rightarrow> (exn + csv_source) option"

definition isspace :: "char \<Rightarrow> bool" where
  "isspace c = (c \<in> set [CHR '' '', CHR 0x09, CHR 0x0A, CHR 0x0B, CHR 0x0C, CHR 0x0D,
                           CHR 0x1C, CHR 0x1D, CHR 0x1E, CHR 0x1F, CHR 0x85, CHR 0xA0])"

definition strip :: "string \<Rightarrow> string" where
  "strip s = rev (dropWhile isspace (rev (dropWhile isspace s)))"

definition upper_char :: "char \<Rightarrow> char" where
  "upper_char c =
     (if (97::nat) \<le> of_char c \<and> of_char c \<le> (122::nat)
      then char_of (of_char c - (32::nat)) else c)"

definition upper :: "string \<Rightarrow> string" where
  "upper s = map upper_char s"

text \<open>One pass of the loop over the rows: the task of the row, or \<open>None\<close> when it is skipped.\<close>

definition parse_row ::
  "(string \<Rightarrow> 'u option) \<Rightarrow> (string \<Rightarrow> 's option) \<Rightarrow> (string \<Rightarrow> string option option)
     \<Rightarrow> ('u, 's) task option" where
  "parse_row uuid_of status_of row =
     (case (row ''id'', row ''title'', row ''status'') of
        (Some (Some i), Some (Some t), Some (Some st)) \<Rightarrow>
          (let task_id_str = strip i; title_str = strip t; status_raw_str = strip st in
           if task_id_str = [] \<or> title_str = [] \<or> status_raw_str = [] then None
           else
             (case uuid_of task_id_str of
                None \<Rightarrow> None
              | Some u \<Rightarrow>
                  (case status_of (upper status_raw_str) of
                     None \<Rightarrow> None
                   | Some st' \<Rightarrow> Some \<lparr>task_id = u, title = title_str, status = st'\<rparr>)))
      | _ \<Rightarrow> None)"

definition get_all_tasks ::
  "filesystem \<Rightarrow> (string \<Rightarrow> 'u option) \<Rightarrow> (string \<Rightarrow> 's option) \<Rightarrow> CsvTaskRepository
     \<Rightarrow> exn + ('u, 's) task list" where
  "get_all_tasks fs uuid_of status_of self =
     (case fs (file_path self) of
        None \<Rightarrow> Inl (FileNotFoundError (''CSV file not found at: '' @ file_path self))
      | Some (Inl e) \<Rightarrow> Inl e
      | Some (Inr csvfile) \<Rightarrow>
          (if strip (first_line csvfile) = [] then Inr []
           else if fieldnames csvfile = [] then Inr []
           else if \<not> set [''id'', ''title'', ''status''] \<subseteq> set (fieldnames csvfile) then Inr []
           else Inr (List.map_filter (parse_row uuid_of status_of) (rows csvfile))))"

definition get_task_by_id ::
  "filesystem \<Rightarrow> (string \<Rightarrow> 'u option) \<Rightarrow> (string \<Rightarrow> 's option) \<Rightarrow> ('u \<Rightarrow> string)
     \<Rightarrow> CsvTaskRepository \<Rightarrow> 'u \<Rightarrow> exn + ('u, 's) task" where
  "get_task_by_id fs uuid_of status_of uuid_str self tid =
     (case get_all_tasks fs uuid_of status_of self of
        Inl e \<Rightarrow> Inl e
      | Inr all_tasks \<Rightarrow>
          (case find (\<lambda>t. task_id t = tid) all_tasks of
             Some t \<Rightarrow> Inr t
           | None \<Rightarrow> Inl (ValueError (''Task with ID '' @ quoted (uuid_str tid) @ '' not found.''))))"

definition add_task :: "CsvTaskRepository \<Rightarrow> ('u, 's) task \<Rightarrow> exn + unit" where
  "add_task self t =
     Inl (NotImplementedError ''add_task is not implemented for CsvTaskRepository yet.'')"

definition update_task :: "CsvTaskRepository \<Rightarrow> ('u, 's) task \<Rightarrow> exn + unit" where
  "update_task self t =
     Inl (NotImplementedError ''update_task is not implemented for CsvTaskRepository yet.'')"

definition delete_task :: "CsvTaskRepository \<Rightarrow> 'u \<Rightarrow> exn + unit" where
  "delete_task self tid =
     Inl (NotImplementedError ''delete_task is not implemented for CsvTaskRepository yet.'')"

section \<open>Notions of the specification\<close>

text \<open>
  Structural conformance as the specification words it: the type implements every
  operation the contract declares, that is, it provides each of them and leaves none of
  them abstract.
\<close>

definition satisfies :: "ctable \<Rightarrow> tname \<Rightarrow> tname \<Rightarrow> bool" where
  "satisfies ct t c =
     list_all (\<lambda>op. op \<in> set (methods (ct t)) \<and> op \<notin> set (abstractmethods (ct t)))
       (abstractmethods (ct c))"

text \<open>What \<open>register\<close> checks instead: the registered type is a subclass of the contract.\<close>

definition nominal_conformance :: "ctable \<Rightarrow> world \<Rightarrow> bool" where
  "nominal_conformance ct w = (\<forall>c t. registrations w c = Some t \<longrightarrow> issubclass ct t c)"

text \<open>
  A sequence of \<open>register\<close> calls; a call that raises leaves the container as it was and
  the caller goes on.
\<close>

fun register_all :: "ctable \<Rightarrow> modules \<Rightarrow> (tname \<times> string) list \<Rightarrow> world \<Rightarrow> world" where
  "register_all ct mods [] w = w"
| "register_all ct mods ((c, l) # calls) w =
     register_all ct mods calls (snd (register ct mods c l w))"

text \<open>
  The dependency graph of a world: a parameter is injected when the loop of \<open>resolve\<close>
  resolves its annotation, and a type depends on the annotations of the injected
  parameters of the class it is resolved to. The graph of a request is the part of it
  that can be reached from the requested type.
\<close>

definition injected :: "param \<Rightarrow> bool" where
  "injected p =
     (pname p \<noteq> ''self'' \<and> kind p = POSITIONAL_OR_KEYWORD \<and> annotation p \<noteq> None)"

definition dependencies_of :: "ctable \<Rightarrow> world \<Rightarrow> tname \<Rightarrow> tname list" where
  "dependencies_of ct w t =
     map (\<lambda>p. the (annotation p)) (filter injected (init_params (ct (target w t))))"

definition dep_edges :: "ctable \<Rightarrow> world \<Rightarrow> (tname \<times> tname) set" where
  "dep_edges ct w = {(u, t). u \<in> set (dependencies_of ct w t)}"

definition request_graph :: "ctable \<Rightarrow> world \<Rightarrow> tname \<Rightarrow> (tname \<times> tname) set" where
  "request_graph ct w t = {(u, v). (u, v) \<in> dep_edges ct w \<and> (v, t) \<in> (dep_edges ct w)\<^sup>*}"

text \<open>
  The first parameter that the loop does not skip, and a set of types along which
  resolution goes on for ever: each of them is resolved to a concrete class whose first
  parameter is injected and annotated with a type of the set.
\<close>

definition first_param :: "ctable \<Rightarrow> world \<Rightarrow> tname \<Rightarrow> param option" where
  "first_param ct w t =
     (case dropWhile (\<lambda>p. pname p = ''self'') (init_params (ct (target w t))) of
        [] \<Rightarrow> None
      | p # ps \<Rightarrow> Some p)"

definition follows_cycle :: "ctable \<Rightarrow> world \<Rightarrow> tname set \<Rightarrow> bool" where
  "follows_cycle ct w S =
     (\<forall>t \<in> S. \<not> isabstract ct (target w t) \<and>
        (\<exists>p. first_param ct w t = Some p \<and> injected p \<and> the (annotation p) \<in> S))"

section \<open>Further classes, used as inputs\<close>

text \<open>
  Classes that a program can hand to the container, written against the contract of the
  application:
  \<^verbatim>\<open>
  class IClock(ABC):
      @abstractmethod
      def now(self): pass

  class PartialRepository(ITaskRepository):
      def __init__(self): pass
      def get_all_tasks(self): return []

  class FailingRepository(ITaskRepository):      # defines the five operations
      def __init__(self): raise ValueError("backing store unavailable")

  class MissingFileRepository(ITaskRepository):  # defines the five operations
      def __init__(self): raise FileNotFoundError("tasks.db")

  class OfflineService:
      def __init__(self, task_repository: ITaskRepository = None):
          self.task_repository = task_repository

  class Exporter:
      def __init__(self, clock: IClock, **options):
          self.clock = clock; self.options = options

  class AuditService:
      def __init__(self, task_repository: ITaskRepository):
          self.task_repository = task_repository

  class AuditedRepository(ITaskRepository):      # defines the five operations
      def __init__(self, audit: AuditService):
          self.audit = audit

  class LedgerService:
      def __init__(self, clock: IClock, task_repository: ITaskRepository):
          self.clock = clock; self.task_repository = task_repository

  class LedgerRepository(ITaskRepository):       # defines the five operations
      def __init__(self, ledger: LedgerService):
          self.ledger = ledger
  \<close>
\<close>

definition c_IClock :: tname where "c_IClock = ''examples.IClock''"
definition c_PartialRepository :: tname where "c_PartialRepository = ''examples.PartialRepository''"
definition c_FailingRepository :: tname where "c_FailingRepository = ''examples.FailingRepository''"
definition c_MissingFileRepository :: tname where
  "c_MissingFileRepository = ''examples.MissingFileRepository''"
definition c_OfflineService :: tname where "c_OfflineService = ''examples.OfflineService''"
definition c_Exporter :: tname where "c_Exporter = ''examples.Exporter''"
definition c_AuditService :: tname where "c_AuditService = ''examples.AuditService''"
definition c_AuditedRepository :: tname where "c_AuditedRepository = ''examples.AuditedRepository''"
definition c_LedgerService :: tname where "c_LedgerService = ''examples.LedgerService''"
definition c_LedgerRepository :: tname where "c_LedgerRepository = ''examples.LedgerRepository''"

text \<open>A constructor that stores its keyword arguments as they are.\<close>

definition keeps_arguments ::
  "(pyval \<Rightarrow> tname \<Rightarrow> bool) \<Rightarrow> (string \<times> pyval) list \<Rightarrow> exn + (string \<times> pyval) list" where
  "keeps_arguments isinst kw = Inr kw"

definition injected_param :: "string \<Rightarrow> tname \<Rightarrow> pyval option \<Rightarrow> param" where
  "injected_param n t d =
     \<lparr>pname = n, kind = POSITIONAL_OR_KEYWORD, annotation = Some t, pdefault = d\<rparr>"

definition repository_class :: "string \<Rightarrow> tname \<Rightarrow> param list
    \<Rightarrow> ((pyval \<Rightarrow> tname \<Rightarrow> bool) \<Rightarrow> (string \<times> pyval) list \<Rightarrow> exn + (string \<times> pyval) list)
    \<Rightarrow> pyclass" where
  "repository_class n c ps ctor =
     \<lparr>cname = n, mro = [c, c_ITaskRepository, c_ABC, c_object], abstractmethods = [],
      methods = ''__init__'' # repository_operations, init_params = self_param # ps,
      construct = ctor\<rparr>"

definition service_class :: "string \<Rightarrow> tname \<Rightarrow> param list \<Rightarrow> pyclass" where
  "service_class n c ps =
     \<lparr>cname = n, mro = [c, c_object], abstractmethods = [], methods = [''__init__''],
      init_params = self_param # ps, construct = keeps_arguments\<rparr>"

definition example_classes :: "string \<Rightarrow> ctable" where
  "example_classes module_file c =
     (if c = c_IClock then
        \<lparr>cname = ''IClock'', mro = [c_IClock, c_ABC, c_object], abstractmethods = [''now''],
         methods = [''now''], init_params = object_init_params,
         construct = (\<lambda>isinst kw. Inl (TypeError
           ''Can't instantiate abstract class IClock with abstract methods''))\<rparr>
      else if c = c_PartialRepository then
        \<lparr>cname = ''PartialRepository'',
         mro = [c_PartialRepository, c_ITaskRepository, c_ABC, c_object],
         abstractmethods = [''add_task'', ''get_task_by_id'', ''update_task'', ''delete_task''],
         methods = ''__init__'' # repository_operations, init_params = [self_param],
         construct = (\<lambda>isinst kw. Inl (TypeError
           ''Can't instantiate abstract class PartialRepository with abstract methods''))\<rparr>
      else if c = c_FailingRepository then
        repository_class ''FailingRepository'' c []
          (\<lambda>isinst kw. Inl (ValueError ''backing store unavailable''))
      else if c = c_MissingFileRepository then
        repository_class ''MissingFileRepository'' c []
          (\<lambda>isinst kw. Inl (FileNotFoundError ''tasks.db''))
      else if c = c_OfflineService then
        service_class ''OfflineService'' c
          [injected_param ''task_repository'' c_ITaskRepository (Some VNone)]
      else if c = c_Exporter then
        service_class ''Exporter'' c
          [injected_param ''clock'' c_IClock None,
           \<lparr>pname = ''options'', kind = VAR_KEYWORD, annotation = None, pdefault = None\<rparr>]
      else if c = c_AuditService then
        service_class ''AuditService'' c [injected_param ''task_repository'' c_ITaskRepository None]
      else if c = c_AuditedRepository then
        repository_class ''AuditedRepository'' c [injected_param ''audit'' c_AuditService None]
          keeps_arguments
      else if c = c_LedgerService then
        service_class ''LedgerService'' c
          [injected_param ''clock'' c_IClock None,
           injected_param ''task_repository'' c_ITaskRepository None]
      else if c = c_LedgerRepository then
        repository_class ''LedgerRepository'' c [injected_param ''ledger'' c_LedgerService None]
          keeps_arguments
      else taskbuddy_classes module_file c)"

definition example_modules :: modules where
  "example_modules m =
     (if m = ''examples'' then
        Inr [(''IClock'', AClass c_IClock),
             (''PartialRepository'', AClass c_PartialRepository),
             (''FailingRepository'', AClass c_FailingRepository),
             (''MissingFileRepository'', AClass c_MissingFileRepository),
             (''OfflineService'', AClass c_OfflineService),
             (''Exporter'', AClass c_Exporter),
             (''AuditService'', AClass c_AuditService),
             (''AuditedRepository'', AClass c_AuditedRepository),
             (''LedgerService'', AClass c_LedgerService),
             (''LedgerRepository'', AClass c_LedgerRepository)]
      else taskbuddy_modules m)"

text \<open>A container in which the contract is registered to the class \<open>t\<close>, and an empty one.\<close>

definition wired :: "tname \<Rightarrow> world" where
  "wired t = \<lparr>registrations = [c_ITaskRepository \<mapsto> t], heap = [], log = []\<rparr>"

definition unwired :: world where
  "unwired = \<lparr>registrations = Map.empty, heap = [], log = []\<rparr>"

section \<open>Basic facts about the resolution\<close>

lemma resolve_0: "resolve 0 ct t w = None"
  by simp

lemma resolve_Suc:
  "resolve (Suc n) ct t w =
     (if isabstract ct (target w t) then
        Some (Inl (ValueError (msg_unregistered (cname (ct t)))), w)
      else construct_with ct (target w t)
             (resolve_deps (resolve n ct) (cname (ct (target w t)))
                (init_params (ct (target w t))) [] w))"
  by (simp add: Let_def)

declare resolve.simps [simp del]

lemma deps_self:
  "pname p = ''self'' \<Longrightarrow>
     resolve_deps rec cls (p # ps) deps w = resolve_deps rec cls ps deps w"
  by simp

lemma deps_not_injected:
  assumes "pname p \<noteq> ''self''" and "\<not> (kind p = POSITIONAL_OR_KEYWORD \<and> annotation p \<noteq> None)"
  shows "resolve_deps rec cls (p # ps) deps w =
     (case pdefault p of
        Some d \<Rightarrow> resolve_deps rec cls ps (dict_set deps (pname p) d) w
      | None \<Rightarrow> Some (Inl (ValueError (msg_cannot_resolve (pname p) cls msg_missing_hint)), w))"
  using assms by (cases "kind p = POSITIONAL_OR_KEYWORD"; cases "annotation p"; simp)

lemma deps_injected:
  assumes "pname p \<noteq> ''self''" and "kind p = POSITIONAL_OR_KEYWORD" and "annotation p = Some a"
  shows "resolve_deps rec cls (p # ps) deps w =
     (case rec a w of
        None \<Rightarrow> None
      | Some (Inr v, w') \<Rightarrow> resolve_deps rec cls ps (dict_set deps (pname p) v) w'
      | Some (Inl e, w') \<Rightarrow>
          (if is_ValueError e then
             (case pdefault p of
                None \<Rightarrow> Some (Inl (ValueError (msg_cannot_resolve (pname p) cls (exn_str e))), w')
              | Some d \<Rightarrow> resolve_deps rec cls ps (dict_set deps (pname p) d)
                           (emit WARNING (msg_optional (pname p) cls) w'))
           else Some (Inl e, w')))"
proof (cases "rec a w")
  case None
  with assms show ?thesis by simp
next
  case (Some x)
  obtain r w1 where x: "x = (r, w1)" by (cases x)
  show ?thesis
  proof (cases r)
    case (Inr v)
    with assms Some x show ?thesis by simp
  next
    case (Inl e)
    with assms Some x show ?thesis by (cases e; cases "pdefault p"; simp)
  qed
qed

declare resolve_deps.simps(2) [simp del]

lemma resolve_deps_append:
  "resolve_deps rec cls (xs @ ys) deps w =
     (case resolve_deps rec cls xs deps w of
        None \<Rightarrow> None
      | Some (Inl e, w') \<Rightarrow> Some (Inl e, w')
      | Some (Inr d, w') \<Rightarrow> resolve_deps rec cls ys d w')"
proof (induction xs arbitrary: deps w)
  case Nil
  show ?case by simp
next
  case (Cons p ps)
  show ?case
  proof (cases "pname p = ''self''")
    case True
    then show ?thesis by (simp add: deps_self Cons.IH)
  next
    case notself: False
    show ?thesis
    proof (cases "kind p = POSITIONAL_OR_KEYWORD \<and> annotation p \<noteq> None")
      case False
      show ?thesis
        by (cases "pdefault p") (simp_all add: deps_not_injected[OF notself False] Cons.IH)
    next
      case True
      then obtain a where a: "kind p = POSITIONAL_OR_KEYWORD" "annotation p = Some a" by auto
      note step = deps_injected[OF notself a]
      show ?thesis
      proof (cases "rec a w")
        case None
        then show ?thesis by (simp add: step)
      next
        case (Some x)
        obtain r w1 where x: "x = (r, w1)" by (cases x)
        show ?thesis
        proof (cases r)
          case (Inr v)
          with Some x show ?thesis by (simp add: step Cons.IH)
        next
          case (Inl e)
          with Some x show ?thesis
            by (cases "pdefault p") (simp_all add: step Cons.IH)
        qed
      qed
    qed
  qed
qed


lemma emit_frame [simp]:
  "registrations (emit l m w) = registrations w"
  "heap (emit l m w) = heap w"
  "log (emit l m w) = log w @ [(l, m)]"
  by (simp_all add: emit_def)

lemma target_cong: "registrations w' = registrations w \<Longrightarrow> target w' t = target w t"
  by (simp add: target_def)

lemma resolve_deps_frame:
  assumes rec_ok: "\<And>t w r w'. rec t w = Some (r, w') \<Longrightarrow>
            registrations w' = registrations w \<and> (\<exists>new. heap w' = heap w @ new)"
  shows "resolve_deps rec cls ps deps w = Some (r, w') \<Longrightarrow>
           registrations w' = registrations w \<and> (\<exists>new. heap w' = heap w @ new)"
proof (induction ps arbitrary: deps w)
  case Nil
  then show ?case by simp
next
  case (Cons p ps)
  show ?case
  proof (cases "pname p = ''self''")
    case True
    with Cons.prems have "resolve_deps rec cls ps deps w = Some (r, w')"
      by (simp add: deps_self)
    then show ?thesis by (rule Cons.IH)
  next
    case notself: False
    show ?thesis
    proof (cases "kind p = POSITIONAL_OR_KEYWORD \<and> annotation p \<noteq> None")
      case False
      show ?thesis
      proof (cases "pdefault p")
        case None
        with Cons.prems show ?thesis by (simp add: deps_not_injected[OF notself False])
      next
        case (Some d)
        with Cons.prems have "resolve_deps rec cls ps (dict_set deps (pname p) d) w = Some (r, w')"
          by (simp add: deps_not_injected[OF notself False])
        then show ?thesis by (rule Cons.IH)
      qed
    next
      case True
      then obtain a where a: "kind p = POSITIONAL_OR_KEYWORD" "annotation p = Some a" by auto
      note step = deps_injected[OF notself a]
      from Cons.prems obtain r1 w1 where r1: "rec a w = Some (r1, w1)"
        by (cases "rec a w") (auto simp: step)
      from rec_ok[OF r1] obtain new1 where
        f1: "registrations w1 = registrations w" "heap w1 = heap w @ new1" by blast
      have via: "registrations w' = registrations w1 \<and> (\<exists>new. heap w' = heap w1 @ new)
                 \<Longrightarrow> ?thesis"
        using f1 by auto
      show ?thesis
      proof (cases r1)
        case (Inr v)
        with Cons.prems r1
        have "resolve_deps rec cls ps (dict_set deps (pname p) v) w1 = Some (r, w')"
          by (simp add: step)
        from Cons.IH[OF this] show ?thesis by (rule via)
      next
        case (Inl e)
        show ?thesis
        proof (cases "is_ValueError e")
          case False
          with Cons.prems r1 Inl have "w' = w1" by (simp add: step)
          then show ?thesis by (intro via) simp
        next
          case ve: True
          show ?thesis
          proof (cases "pdefault p")
            case None
            with Cons.prems r1 Inl ve have "w' = w1" by (simp add: step)
            then show ?thesis by (intro via) simp
          next
            case (Some d)
            with Cons.prems r1 Inl ve
            have "resolve_deps rec cls ps (dict_set deps (pname p) d)
                  (emit WARNING (msg_optional (pname p) cls) w1) = Some (r, w')"
              by (simp add: step)
            from Cons.IH[OF this] show ?thesis by (intro via) simp
          qed
        qed
      qed
    qed
  qed
qed

lemma instantiate_frame:
  "instantiate ct c deps w = (r, w') \<Longrightarrow>
     registrations w' = registrations w \<and> log w' = log w \<and>
     (case r of Inl e \<Rightarrow> w' = w
      | Inr v \<Rightarrow> v = VRef (length (heap w)) \<and>
                 (\<exists>fs. heap w' = heap w @ [\<lparr>obj_class = c, obj_fields = fs\<rparr>]))"
  by (cases "construct (ct c) (isinstance ct (heap w)) deps") (auto simp: instantiate_def)

lemma construct_with_Some:
  "construct_with ct c (Some (Inr deps, w)) =
     Some (instantiate ct c deps
             (emit DEBUG (''Resolving '' @ cname (ct c) @ '' with dependencies: ''
                            @ repr_keys deps) w))"
  "construct_with ct c (Some (Inl e, w)) = Some (Inl e, w)"
  "construct_with ct c None = None"
  by (simp_all add: construct_with_def)

lemma resolve_concrete_cases:
  assumes "resolve (Suc n) ct t w = Some (r, w')" and "\<not> isabstract ct (target w t)"
  obtains (failed) e where
      "resolve_deps (resolve n ct) (cname (ct (target w t)))
         (init_params (ct (target w t))) [] w = Some (Inl e, w')" "r = Inl e"
  | (built) deps wd where
      "resolve_deps (resolve n ct) (cname (ct (target w t)))
         (init_params (ct (target w t))) [] w = Some (Inr deps, wd)"
      "instantiate ct (target w t) deps
         (emit DEBUG (''Resolving '' @ cname (ct (target w t)) @ '' with dependencies: ''
                        @ repr_keys deps) wd) = (r, w')"
proof (cases "resolve_deps (resolve n ct) (cname (ct (target w t)))
         (init_params (ct (target w t))) [] w")
  case None
  with assms show ?thesis by (simp add: resolve_Suc construct_with_Some)
next
  case (Some x)
  obtain rd wd where x: "x = (rd, wd)" by (cases x)
  show ?thesis
  proof (cases rd)
    case (Inl e)
    with assms Some x show ?thesis
      by (intro failed[of e]) (simp_all add: resolve_Suc construct_with_Some)
  next
    case (Inr deps)
    with assms Some x show ?thesis
      by (intro built[of deps wd]) (simp_all add: resolve_Suc construct_with_Some)
  qed
qed

lemma resolve_frame:
  "resolve n ct t w = Some (r, w') \<Longrightarrow>
     registrations w' = registrations w \<and> (\<exists>new. heap w' = heap w @ new)"
proof (induction n arbitrary: t w r w')
  case 0
  then show ?case by (simp add: resolve_0)
next
  case (Suc n)
  show ?case
  proof (cases "isabstract ct (target w t)")
    case True
    with Suc.prems show ?thesis by (auto simp: resolve_Suc)
  next
    case False
    from Suc.prems False show ?thesis
    proof (cases rule: resolve_concrete_cases)
      case (failed e)
      show ?thesis by (rule resolve_deps_frame[OF _ failed(1)]) (rule Suc.IH)
    next
      case (built deps wd)
      have fd: "registrations wd = registrations w \<and> (\<exists>new. heap wd = heap w @ new)"
        by (rule resolve_deps_frame[OF _ built(1)]) (rule Suc.IH)
      from instantiate_frame[OF built(2)] fd show ?thesis
        by (cases r) auto
    qed
  qed
qed

lemma resolve_returns_new_instance:
  assumes "resolve n ct t w = Some (Inr v, w')"
  shows "v = VRef (length (heap w') - 1) \<and> length (heap w) < length (heap w') \<and>
         obj_class (last (heap w')) = target w t"
proof (cases n)
  case 0
  with assms show ?thesis by (simp add: resolve_0)
next
  case (Suc k)
  with assms have na: "\<not> isabstract ct (target w t)"
    by (auto simp: resolve_Suc)
  from assms[unfolded Suc] na show ?thesis
  proof (cases rule: resolve_concrete_cases)
    case (failed e)
    then show ?thesis by simp
  next
    case (built deps wd)
    have fd: "registrations wd = registrations w \<and> (\<exists>new. heap wd = heap w @ new)"
      by (rule resolve_deps_frame[OF _ built(1)]) (rule resolve_frame)
    from instantiate_frame[OF built(2)] fd show ?thesis by auto
  qed
qed

section \<open>Evaluating the application's classes\<close>

lemmas class_names = c_object_def c_str_def c_ABC_def c_ITaskRepository_def
  c_CsvTaskRepository_def c_TaskManagerService_def

lemmas example_names = c_IClock_def c_PartialRepository_def c_FailingRepository_def
  c_MissingFileRepository_def
  c_OfflineService_def c_Exporter_def c_AuditService_def c_AuditedRepository_def
  c_LedgerService_def c_LedgerRepository_def

lemmas resolve_eval = resolve_Suc resolve_0 resolve_deps.simps construct_with_def
  instantiate_def target_def isabstract_def emit_def

lemmas message_defs = msg_unregistered_def msg_cannot_resolve_def msg_missing_hint_def
  msg_optional_def quoted_def repr_keys_def

lemmas taskbuddy_defs = taskbuddy_classes_def ITaskRepository_class_def
  CsvTaskRepository_class_def TaskManagerService_class_def plain_class_def
  object_init_params_def self_param_def repository_operations_def

lemmas example_defs = example_classes_def repository_class_def service_class_def
  injected_param_def keeps_arguments_def


lemma resolve_str_fails:
  "registrations w c_str = None \<Longrightarrow>
     resolve (Suc n) (taskbuddy_classes f) c_str w
       = Some (Inl (ValueError (msg_cannot_resolve ''args'' ''str'' msg_missing_hint)), w)"
  by (simp add: resolve_eval class_names taskbuddy_defs)

lemma resolve_csv_repository:
  assumes "registrations w c_str = None"
    and "registrations w c_ITaskRepository = Some c_CsvTaskRepository"
  shows "resolve (Suc (Suc n)) (taskbuddy_classes f) c_ITaskRepository w
     = Some (Inr (VRef (length (heap w))),
         w\<lparr>heap := heap w @ [\<lparr>obj_class = c_CsvTaskRepository,
               obj_fields = [(''file_path'', VStr (default_file_path f))]\<rparr>],
           log := log w @ [(WARNING, msg_optional ''file_path'' ''CsvTaskRepository''),
               (DEBUG, ''Resolving CsvTaskRepository with dependencies: [''
                         @ quoted ''file_path'' @ '']'')]\<rparr>)"
proof -
  have tgt: "target w c_ITaskRepository = c_CsvTaskRepository"
    using assms(2) by (simp add: target_def)
  have cls: "taskbuddy_classes f c_CsvTaskRepository = CsvTaskRepository_class f"
    by (simp add: taskbuddy_classes_def class_names)
  have str: "resolve (Suc n) (taskbuddy_classes f) c_str w
       = Some (Inl (ValueError (msg_cannot_resolve ''args'' ''str'' msg_missing_hint)), w)"
    by (rule resolve_str_fails[OF assms(1)])
  have deps: "resolve_deps (resolve (Suc n) (taskbuddy_classes f))
       (cname (CsvTaskRepository_class f))
       (init_params (CsvTaskRepository_class f)) [] w
     = Some (Inr [(''file_path'', VNone)],
             emit WARNING (msg_optional ''file_path'' ''CsvTaskRepository'') w)"
    by (simp add: CsvTaskRepository_class_def self_param_def resolve_deps.simps str)
  show ?thesis
    by (simp add: resolve_Suc[of "Suc n"] tgt cls deps isabstract_def construct_with_def)
       (simp add: cls CsvTaskRepository_class_def CsvTaskRepository_init_def instantiate_def
          emit_def repr_keys_def quoted_def)
qed

lemma resolve_service:
  assumes "registrations w c_str = None"
    and "registrations w c_ITaskRepository = Some c_CsvTaskRepository"
    and "registrations w c_TaskManagerService = None"
  shows "resolve (Suc (Suc (Suc n))) (taskbuddy_classes f) c_TaskManagerService w
     = Some (Inr (VRef (Suc (length (heap w)))),
         w\<lparr>heap := heap w @
               [\<lparr>obj_class = c_CsvTaskRepository,
                 obj_fields = [(''file_path'', VStr (default_file_path f))]\<rparr>,
                \<lparr>obj_class = c_TaskManagerService,
                 obj_fields = [(''_task_repository'', VRef (length (heap w)))]\<rparr>],
           log := log w @
               [(WARNING, msg_optional ''file_path'' ''CsvTaskRepository''),
                (DEBUG, ''Resolving CsvTaskRepository with dependencies: [''
                          @ quoted ''file_path'' @ '']''),
                (DEBUG, ''Resolving TaskManagerService with dependencies: [''
                          @ quoted ''task_repository'' @ '']'')]\<rparr>)"
proof -
  define w2 where "w2 = w\<lparr>heap := heap w @ [\<lparr>obj_class = c_CsvTaskRepository,
               obj_fields = [(''file_path'', VStr (default_file_path f))]\<rparr>],
           log := log w @ [(WARNING, msg_optional ''file_path'' ''CsvTaskRepository''),
               (DEBUG, ''Resolving CsvTaskRepository with dependencies: [''
                         @ quoted ''file_path'' @ '']'')]\<rparr>"
  have r2: "resolve (Suc (Suc n)) (taskbuddy_classes f) c_ITaskRepository w
              = Some (Inr (VRef (length (heap w))), w2)"
    using resolve_csv_repository[OF assms(1,2), of n f] by (simp add: w2_def)
  have cls: "taskbuddy_classes f c_TaskManagerService = TaskManagerService_class"
    by (simp add: taskbuddy_classes_def class_names)
  have tgt: "target w c_TaskManagerService = c_TaskManagerService"
    using assms(3) by (simp add: target_def)
  have deps: "resolve_deps (resolve (Suc (Suc n)) (taskbuddy_classes f))
       (cname TaskManagerService_class)
       (init_params TaskManagerService_class) [] w
     = Some (Inr [(''task_repository'', VRef (length (heap w)))], w2)"
    by (simp add: TaskManagerService_class_def self_param_def resolve_deps.simps r2)
  have isrepo: "isinstance (taskbuddy_classes f) (heap w2) (VRef (length (heap w)))
                  c_ITaskRepository"
    by (simp add: isinstance_def issubclass_def w2_def nth_append
          taskbuddy_classes_def class_names CsvTaskRepository_class_def)
  show ?thesis
    using isrepo
    by (simp add: resolve_Suc[of "Suc (Suc n)"] tgt cls deps isabstract_def construct_with_def)
       (simp add: cls TaskManagerService_class_def TaskManagerService_init_def instantiate_def
          emit_def w2_def repr_keys_def quoted_def)
qed

section \<open>The loop at one parameter\<close>

lemma resolve_at_param:
  assumes "\<not> isabstract ct (target w t)"
    and "init_params (ct (target w t)) = pre @ p # post"
    and "resolve_deps (resolve n ct) (cname (ct (target w t))) pre [] w = Some (Inr deps, w1)"
  shows "resolve (Suc n) ct t w =
           construct_with ct (target w t)
             (resolve_deps (resolve n ct) (cname (ct (target w t))) (p # post) deps w1)"
  using assms by (simp add: resolve_Suc resolve_deps_append)

lemma resolve_construct:
  assumes "\<not> isabstract ct (target w t)"
    and "resolve_deps (resolve n ct) (cname (ct (target w t)))
           (init_params (ct (target w t))) [] w = Some (Inr deps, wd)"
  shows "resolve (Suc n) ct t w =
           Some (instantiate ct (target w t) deps
             (emit DEBUG (''Resolving '' @ cname (ct (target w t)) @ '' with dependencies: ''
                            @ repr_keys deps) wd))"
  using assms by (simp add: resolve_Suc construct_with_Some)

text \<open>
  The errors that the container raises itself (an unresolved contract, a missing
  dependency) are \<open>ValueError\<close>s: when no constructor raises anything else, every failure
  of \<open>resolve\<close> is a \<open>ValueError\<close>.
\<close>

lemma resolve_deps_failure_kind:
  assumes rec_ok: "\<And>t w e w'. rec t w = Some (Inl e, w') \<Longrightarrow> is_ValueError e"
  shows "resolve_deps rec cls ps deps w = Some (Inl e, w') \<Longrightarrow> is_ValueError e"
proof (induction ps arbitrary: deps w)
  case Nil
  then show ?case by simp
next
  case (Cons p ps)
  show ?case
  proof (cases "pname p = ''self''")
    case True
    with Cons.prems have "resolve_deps rec cls ps deps w = Some (Inl e, w')"
      by (simp add: deps_self)
    then show ?thesis by (rule Cons.IH)
  next
    case notself: False
    show ?thesis
    proof (cases "kind p = POSITIONAL_OR_KEYWORD \<and> annotation p \<noteq> None")
      case False
      show ?thesis
      proof (cases "pdefault p")
        case None
        with Cons.prems show ?thesis by (auto simp: deps_not_injected[OF notself False])
      next
        case (Some d)
        with Cons.prems have "resolve_deps rec cls ps (dict_set deps (pname p) d) w = Some (Inl e, w')"
          by (simp add: deps_not_injected[OF notself False])
        then show ?thesis by (rule Cons.IH)
      qed
    next
      case True
      then obtain a where a: "kind p = POSITIONAL_OR_KEYWORD" "annotation p = Some a" by auto
      note step = deps_injected[OF notself a]
      from Cons.prems obtain r1 w1 where r1: "rec a w = Some (r1, w1)"
        by (cases "rec a w") (auto simp: step)
      show ?thesis
      proof (cases r1)
        case (Inr v)
        with Cons.prems r1
        have "resolve_deps rec cls ps (dict_set deps (pname p) v) w1 = Some (Inl e, w')"
          by (simp add: step)
        then show ?thesis by (rule Cons.IH)
      next
        case (Inl e1)
        with r1 have ve: "is_ValueError e1" using rec_ok by blast
        show ?thesis
        proof (cases "pdefault p")
          case None
          with Cons.prems r1 Inl ve show ?thesis by (auto simp: step)
        next
          case (Some d)
          with Cons.prems r1 Inl ve
          have "resolve_deps rec cls ps (dict_set deps (pname p) d)
                  (emit WARNING (msg_optional (pname p) cls) w1) = Some (Inl e, w')"
            by (simp add: step)
          then show ?thesis by (rule Cons.IH)
        qed
      qed
    qed
  qed
qed

lemma resolve_failure_kind:
  assumes ctor: "\<And>c isinst kw e. construct (ct c) isinst kw = Inl e \<Longrightarrow> is_ValueError e"
  shows "resolve n ct t w = Some (Inl e, w') \<Longrightarrow> is_ValueError e"
proof (induction n arbitrary: t w e w')
  case 0
  then show ?case by (simp add: resolve_0)
next
  case (Suc n)
  show ?case
  proof (cases "isabstract ct (target w t)")
    case True
    with Suc.prems show ?thesis by (auto simp: resolve_Suc)
  next
    case False
    from Suc.prems False show ?thesis
    proof (cases rule: resolve_concrete_cases)
      case (failed e1)
      then have "resolve_deps (resolve n ct) (cname (ct (target w t)))
                   (init_params (ct (target w t))) [] w = Some (Inl e, w')" by simp
      then show ?thesis by (rule resolve_deps_failure_kind[rotated]) (rule Suc.IH)
    next
      case (built deps wd)
      then show ?thesis
        using ctor[of "target w t"] by (auto simp: instantiate_def split: sum.splits)
    qed
  qed
qed

section \<open>Depth bounds, termination and cycles\<close>

text \<open>A larger bound on the depth does not change the outcome of a call that returns.\<close>

lemma resolve_deps_mono:
  assumes le: "\<And>t w r. rec t w = Some r \<Longrightarrow> rec' t w = Some r"
  shows "resolve_deps rec cls ps deps w = Some r \<Longrightarrow> resolve_deps rec' cls ps deps w = Some r"
proof (induction ps arbitrary: deps w)
  case Nil
  then show ?case by simp
next
  case (Cons p ps)
  show ?case
  proof (cases "pname p = ''self''")
    case True
    with Cons show ?thesis by (simp add: deps_self)
  next
    case notself: False
    show ?thesis
    proof (cases "kind p = POSITIONAL_OR_KEYWORD \<and> annotation p \<noteq> None")
      case False
      with Cons notself show ?thesis
        by (cases "pdefault p") (simp_all add: deps_not_injected)
    next
      case True
      then obtain a where a: "kind p = POSITIONAL_OR_KEYWORD" "annotation p = Some a" by auto
      note step = deps_injected[OF notself a]
      from Cons.prems obtain r1 w1 where r1: "rec a w = Some (r1, w1)"
        by (cases "rec a w") (auto simp: step)
      from le[OF r1] have r1': "rec' a w = Some (r1, w1)" .
      show ?thesis
      proof (cases r1)
        case (Inr v)
        with Cons.prems r1
        have "resolve_deps rec cls ps (dict_set deps (pname p) v) w1 = Some r"
          by (simp add: step)
        from Cons.IH[OF this] r1' Inr show ?thesis by (simp add: step)
      next
        case (Inl e)
        show ?thesis
        proof (cases "is_ValueError e \<and> pdefault p \<noteq> None")
          case False
          with Cons.prems r1 r1' Inl show ?thesis
            by (cases "pdefault p") (auto simp: step)
        next
          case True
          then obtain d where d: "is_ValueError e" "pdefault p = Some d" by auto
          with Cons.prems r1 Inl
          have "resolve_deps rec cls ps (dict_set deps (pname p) d)
                  (emit WARNING (msg_optional (pname p) cls) w1) = Some r"
            by (simp add: step)
          from Cons.IH[OF this] r1' Inl d show ?thesis by (simp add: step)
        qed
      qed
    qed
  qed
qed

lemma resolve_mono_Suc:
  "resolve n ct t w = Some r \<Longrightarrow> resolve (Suc n) ct t w = Some r"
proof (induction n arbitrary: t w r)
  case 0
  then show ?case by (simp add: resolve_0)
next
  case (Suc n)
  show ?case
  proof (cases "isabstract ct (target w t)")
    case True
    with Suc.prems show ?thesis by (simp add: resolve_Suc)
  next
    case False
    let ?cls = "cname (ct (target w t))"
    let ?ps = "init_params (ct (target w t))"
    from Suc.prems False obtain x where
      x: "resolve_deps (resolve n ct) ?cls ?ps [] w = Some x"
      by (cases "resolve_deps (resolve n ct) ?cls ?ps [] w")
         (auto simp: resolve_Suc construct_with_Some)
    have "resolve_deps (resolve (Suc n) ct) ?cls ?ps [] w = Some x"
      by (rule resolve_deps_mono[OF _ x]) (rule Suc.IH)
    with Suc.prems False x show ?thesis by (simp add: resolve_Suc)
  qed
qed

lemma resolve_mono:
  "n \<le> m \<Longrightarrow> resolve n ct t w = Some r \<Longrightarrow> resolve m ct t w = Some r"
  by (induction m) (auto simp: le_Suc_eq resolve_mono_Suc)

text \<open>
  The loop returns when every recursive call it can make returns, in every world with
  the registrations of the start.
\<close>

lemma resolve_deps_returns:
  assumes frame: "\<And>t w r w'. rec t w = Some (r, w') \<Longrightarrow> registrations w' = registrations w"
    and calls: "\<And>p w'. p \<in> set ps \<Longrightarrow> injected p \<Longrightarrow> registrations w' = g \<Longrightarrow>
                  rec (the (annotation p)) w' \<noteq> None"
  shows "registrations w = g \<Longrightarrow> resolve_deps rec cls ps deps w \<noteq> None"
  using calls
proof (induction ps arbitrary: deps w)
  case Nil
  then show ?case by simp
next
  case (Cons p ps)
  have rest: "resolve_deps rec cls ps deps' w' \<noteq> None" if "registrations w' = g" for deps' w'
  proof (rule Cons.IH[OF that])
    fix q and w'' :: world
    assume "q \<in> set ps" "injected q" "registrations w'' = g"
    then show "rec (the (annotation q)) w'' \<noteq> None"
      using Cons.prems(2)[of q w''] by simp
  qed
  show ?case
  proof (cases "pname p = ''self''")
    case True
    with rest[OF Cons.prems(1)] show ?thesis by (simp add: deps_self)
  next
    case notself: False
    show ?thesis
    proof (cases "kind p = POSITIONAL_OR_KEYWORD \<and> annotation p \<noteq> None")
      case False
      with notself rest[OF Cons.prems(1)] show ?thesis
        by (cases "pdefault p") (simp_all add: deps_not_injected)
    next
      case True
      then obtain a where a: "kind p = POSITIONAL_OR_KEYWORD" "annotation p = Some a" by auto
      note step = deps_injected[OF notself a]
      have "injected p" using notself a by (simp add: injected_def)
      from Cons.prems(2)[OF _ this Cons.prems(1)] a have "rec a w \<noteq> None" by simp
      then obtain x where "rec a w = Some x" by blast
      then obtain r1 w1 where r1: "rec a w = Some (r1, w1)" by (cases x) simp
      from frame[OF r1] Cons.prems(1) have g1: "registrations w1 = g" by simp
      then have g2: "registrations (emit WARNING (msg_optional (pname p) cls) w1) = g" by simp
      show ?thesis
      proof (cases r1)
        case (Inr v)
        with r1 rest[OF g1] show ?thesis by (simp add: step)
      next
        case (Inl e)
        with r1 rest[OF g2] show ?thesis
          by (cases "pdefault p") (simp_all add: step)
      qed
    qed
  qed
qed

lemma dependencies_of_cong:
  "registrations w' = registrations w \<Longrightarrow> dependencies_of ct w' t = dependencies_of ct w t"
  using target_cong[of w' w t] by (simp add: dependencies_of_def)

lemma resolve_returns_from_dependencies:
  assumes deps: "\<forall>u \<in> set (dependencies_of ct w t).
                   \<forall>w'. registrations w' = registrations w \<longrightarrow> resolve n ct u w' \<noteq> None"
    and same: "registrations w' = registrations w"
  shows "resolve (Suc n) ct t w' \<noteq> None"
proof (cases "isabstract ct (target w' t)")
  case True
  then show ?thesis by (simp add: resolve_Suc)
next
  case False
  have tg: "target w' t = target w t" using same by (rule target_cong)
  have "resolve_deps (resolve n ct) (cname (ct (target w' t)))
          (init_params (ct (target w' t))) [] w' \<noteq> None"
  proof (rule resolve_deps_returns[where g = "registrations w"])
    show "\<And>t w r w'. resolve n ct t w = Some (r, w') \<Longrightarrow> registrations w' = registrations w"
      by (rule resolve_frame[THEN conjunct1])
    show "registrations w' = registrations w" by (rule same)
    fix p and w'' :: world
    assume p: "p \<in> set (init_params (ct (target w' t)))" "injected p"
      and g: "registrations w'' = registrations w"
    from p have "the (annotation p) \<in> set (dependencies_of ct w t)"
      by (auto simp: dependencies_of_def tg)
    with deps g show "resolve n ct (the (annotation p)) w'' \<noteq> None" by blast
  qed
  then obtain x where x: "resolve_deps (resolve n ct) (cname (ct (target w' t)))
          (init_params (ct (target w' t))) [] w' = Some x" by blast
  obtain rd wd where xd: "x = (rd, wd)" by (cases x)
  show ?thesis
    using False by (cases rd) (simp_all add: resolve_Suc x xd construct_with_Some)
qed

lemma common_bound:
  assumes "\<forall>u \<in> set us. \<exists>n. \<forall>w'. registrations w' = g \<longrightarrow> resolve n ct u w' \<noteq> None"
  shows "\<exists>n. \<forall>u \<in> set us. \<forall>w'. registrations w' = g \<longrightarrow> resolve n ct u w' \<noteq> None"
  using assms
proof (induction us)
  case Nil
  then show ?case by simp
next
  case (Cons u us)
  then obtain n1 where n1: "\<forall>w'. registrations w' = g \<longrightarrow> resolve n1 ct u w' \<noteq> None"
    by auto
  from Cons obtain n2 where
    n2: "\<forall>u \<in> set us. \<forall>w'. registrations w' = g \<longrightarrow> resolve n2 ct u w' \<noteq> None"
    by auto
  have "\<forall>v \<in> set (u # us). \<forall>w'. registrations w' = g \<longrightarrow> resolve (max n1 n2) ct v w' \<noteq> None"
  proof (intro ballI allI impI)
    fix v and w' :: world
    assume v: "v \<in> set (u # us)" and g: "registrations w' = g"
    show "resolve (max n1 n2) ct v w' \<noteq> None"
    proof (cases "v = u")
      case True
      with n1 g have "resolve n1 ct v w' \<noteq> None" by simp
      then obtain r where r: "resolve n1 ct v w' = Some r" by blast
      have "resolve (max n1 n2) ct v w' = Some r"
        by (rule resolve_mono[OF _ r]) simp
      then show ?thesis by simp
    next
      case False
      with v have "v \<in> set us" by simp
      with n2 g have "resolve n2 ct v w' \<noteq> None" by simp
      then obtain r where r: "resolve n2 ct v w' = Some r" by blast
      have "resolve (max n1 n2) ct v w' = Some r"
        by (rule resolve_mono[OF _ r]) simp
      then show ?thesis by simp
    qed
  qed
  then show ?case by blast
qed

lemma resolve_terminates:
  assumes fin: "finite (request_graph ct w t0)" and acyc: "acyclic (request_graph ct w t0)"
  shows "(t, t0) \<in> (dep_edges ct w)\<^sup>* \<Longrightarrow>
         \<exists>n. \<forall>w'. registrations w' = registrations w \<longrightarrow> resolve n ct t w' \<noteq> None"
proof -
  have wf: "wf (request_graph ct w t0)"
    using fin acyc by (rule finite_acyclic_wf)
  show "(t, t0) \<in> (dep_edges ct w)\<^sup>* \<Longrightarrow>
         \<exists>n. \<forall>w'. registrations w' = registrations w \<longrightarrow> resolve n ct t w' \<noteq> None"
    using wf
  proof (induction t rule: wf_induct_rule)
    case (less t)
    have "\<forall>u \<in> set (dependencies_of ct w t).
            \<exists>n. \<forall>w'. registrations w' = registrations w \<longrightarrow> resolve n ct u w' \<noteq> None"
    proof
      fix u
      assume u: "u \<in> set (dependencies_of ct w t)"
      then have e: "(u, t) \<in> dep_edges ct w" by (simp add: dep_edges_def)
      with less.prems have "(u, t) \<in> request_graph ct w t0" "(u, t0) \<in> (dep_edges ct w)\<^sup>*"
        by (auto simp: request_graph_def)
      then show "\<exists>n. \<forall>w'. registrations w' = registrations w \<longrightarrow> resolve n ct u w' \<noteq> None"
        by (rule less.IH)
    qed
    from common_bound[OF this] obtain n where
      "\<forall>u \<in> set (dependencies_of ct w t).
         \<forall>w'. registrations w' = registrations w \<longrightarrow> resolve n ct u w' \<noteq> None" ..
    then have "\<forall>w'. registrations w' = registrations w \<longrightarrow> resolve (Suc n) ct t w' \<noteq> None"
      using resolve_returns_from_dependencies by blast
    then show ?case ..
  qed
qed

text \<open>Along a set of types that follows a cycle, no depth is enough.\<close>

lemma skip_receivers:
  "\<forall>p \<in> set ps. pname p = ''self'' \<Longrightarrow> resolve_deps rec cls ps deps w = Some (Inr deps, w)"
  by (induction ps) (simp_all add: deps_self)

lemma resolve_diverges:
  assumes cyc: "follows_cycle ct w S"
  shows "t \<in> S \<Longrightarrow> registrations w' = registrations w \<Longrightarrow> resolve n ct t w' = None"
proof (induction n arbitrary: t w')
  case 0
  show ?case by (simp add: resolve_0)
next
  case (Suc n)
  have tg: "target w' t = target w t" using Suc.prems(2) by (rule target_cong)
  from cyc Suc.prems(1) obtain p where
    na: "\<not> isabstract ct (target w t)" and fp: "first_param ct w t = Some p"
    and inj: "injected p" and nxt: "the (annotation p) \<in> S"
    by (auto simp: follows_cycle_def)
  let ?ps = "init_params (ct (target w t))"
  from fp obtain rest where dw: "dropWhile (\<lambda>p. pname p = ''self'') ?ps = p # rest"
    by (auto simp: first_param_def split: list.splits)
  have ps: "?ps = takeWhile (\<lambda>p. pname p = ''self'') ?ps @ p # rest"
    using dw takeWhile_dropWhile_id[of "\<lambda>p. pname p = ''self''" ?ps] by simp
  have skip: "resolve_deps (resolve n ct) (cname (ct (target w t)))
                (takeWhile (\<lambda>p. pname p = ''self'') ?ps) [] w' = Some (Inr [], w')"
    by (rule skip_receivers) (auto dest: set_takeWhileD)
  from inj obtain a where a: "pname p \<noteq> ''self''" "kind p = POSITIONAL_OR_KEYWORD"
      "annotation p = Some a"
    by (auto simp: injected_def)
  with nxt have "a \<in> S" by simp
  from Suc.IH[OF this Suc.prems(2)] have none: "resolve n ct a w' = None" .
  have "resolve_deps (resolve n ct) (cname (ct (target w t))) (p # rest) [] w' = None"
    by (simp add: deps_injected[OF a] none)
  then have "resolve_deps (resolve n ct) (cname (ct (target w t))) ?ps [] w' = None"
    by (subst ps) (simp add: resolve_deps_append skip)
  with na show ?case by (simp add: resolve_Suc tg construct_with_Some)
qed

section \<open>Facts about register\<close>

lemma register_cases:
  obtains (unloadable) e where "load_attr mods l = Inl e" "caught_on_load e"
      "register ct mods c l w = (Inl (ValueError (msg_failed_load l e)), w)"
  | (import_raises) e where "load_attr mods l = Inl e" "\<not> caught_on_load e"
      "register ct mods c l w = (Inl e, w)"
  | (not_a_class) "load_attr mods l = Inr AOther"
      "register ct mods c l w = (Inl (TypeError ''issubclass() arg 1 must be a class''), w)"
  | (not_subclass) t where "load_attr mods l = Inr (AClass t)" "\<not> issubclass ct t c"
      "register ct mods c l w
         = (Inl (ValueError (msg_not_impl (cname (ct t)) (cname (ct c)))), w)"
  | (stored) t where "load_attr mods l = Inr (AClass t)" "issubclass ct t c"
      "register ct mods c l w
         = (Inr (), emit DEBUG (''Registered '' @ cname (ct t) @ '' for '' @ cname (ct c))
                      (w\<lparr>registrations := (registrations w)(c \<mapsto> t)\<rparr>))"
proof (cases "load_attr mods l")
  case (Inl e)
  then show ?thesis
    by (cases "caught_on_load e") (auto simp: register_def intro: unloadable import_raises)
next
  case (Inr a)
  show ?thesis
  proof (cases a)
    case AOther
    with Inr show ?thesis by (auto simp: register_def intro: not_a_class)
  next
    case (AClass t)
    with Inr show ?thesis
      by (cases "issubclass ct t c") (auto simp: register_def intro: not_subclass stored)
  qed
qed

lemma register_success:
  assumes "register ct mods c l w = (Inr u, w')"
  shows "\<exists>t. load_attr mods l = Inr (AClass t) \<and> issubclass ct t c \<and>
             registrations w' = (registrations w)(c \<mapsto> t) \<and> heap w' = heap w"
  using assms by (cases rule: register_cases[of mods l ct c w]) auto

lemma register_failure:
  assumes "register ct mods c l w = (Inl e, w')"
  shows "w' = w"
  using assms by (cases rule: register_cases[of mods l ct c w]) auto

lemma register_keeps_conformance:
  assumes "nominal_conformance ct w"
  shows "nominal_conformance ct (snd (register ct mods c l w))"
  using assms
  by (cases rule: register_cases[of mods l ct c w]) (auto simp: nominal_conformance_def)

lemma register_all_keeps_conformance:
  "nominal_conformance ct w \<Longrightarrow> nominal_conformance ct (register_all ct mods calls w)"
proof (induction calls arbitrary: w)
  case Nil
  then show ?case by simp
next
  case (Cons call calls)
  obtain c l where call: "call = (c, l)" by (cases call)
  from Cons.prems have "nominal_conformance ct (snd (register ct mods c l w))"
    by (rule register_keeps_conformance)
  then show ?case unfolding call by (simp add: Cons.IH)
qed

lemma new_container_conforms: "nominal_conformance ct (new_container h lg)"
  by (simp add: nominal_conformance_def new_container_def emit_def)

lemma type_of_last:
  "h \<noteq> [] \<Longrightarrow> type_of h (VRef (length h - 1)) = obj_class (last h)"
  by (simp add: last_conv_nth)

lemmas register_eval = register_def load_attr_def rsplit_dot_def example_modules_def
  taskbuddy_modules_def issubclass_def new_container_def emit_def

section \<open>Unresolved contracts\<close>

text \<open>
  C5. For every abstract type that has no entry in the registration map, \<open>resolve\<close> fails
  with the error of an unresolved contract, whatever the depth allowed, and it does not
  instantiate anything: heap, log and registrations are as before.
\<close>

theorem resolve_unregistered_abstract:
  assumes "isabstract ct c" and "registrations w c = None"
  shows "resolve (Suc n) ct c w = Some (Inl (ValueError (msg_unregistered (cname (ct c)))), w)"
  using assms by (simp add: resolve_Suc target_def)

theorem resolve_unregistered_abstract_witness:
  "isabstract (taskbuddy_classes ''/srv/TaskBuddy/src/data/csv_task_repository.py'')
     c_ITaskRepository
   \<and> registrations unwired c_ITaskRepository = None
   \<and> resolve (Suc 0) (taskbuddy_classes ''/srv/TaskBuddy/src/data/csv_task_repository.py'')
       c_ITaskRepository unwired
     = Some (Inl (ValueError
         ''No concrete implementation registered for abstraction: ITaskRepository''), unwired)"
proof -
  let ?ct = "taskbuddy_classes ''/srv/TaskBuddy/src/data/csv_task_repository.py''"
  have a: "isabstract ?ct c_ITaskRepository"
    by (simp add: isabstract_def taskbuddy_classes_def ITaskRepository_class_def
          repository_operations_def)
  have b: "registrations unwired c_ITaskRepository = None"
    by (simp add: unwired_def)
  have c: "cname (?ct c_ITaskRepository) = ''ITaskRepository''"
    by (simp add: taskbuddy_classes_def ITaskRepository_class_def)
  from resolve_unregistered_abstract[OF a b, of 0] a b show ?thesis
    by (simp add: c msg_unregistered_def)
qed

section \<open>End-to-end wiring\<close>



section \<open>A dependency that cannot be resolved\<close>

text \<open>
  C4. Let the loop over the parameters of the class that \<open>t\<close> is resolved to reach a typed
  parameter \<open>p\<close> (one whose annotation the container resolves), and let the recursive
  resolution of its annotation fail, that is, signal the \<open>ValueError\<close> by which the
  container reports an unresolved contract or a missing dependency. If \<open>p\<close> has no default,
  \<open>resolve\<close> fails with a \<open>ValueError\<close> whose message names \<open>p\<close> and the class being
  constructed, followed by the message of the failure. If \<open>p\<close> has a default, a record of
  level \<open>WARNING\<close> is logged and the loop goes on with the default as the argument.
\<close>

theorem failed_resolution_policy:
  assumes concrete: "\<not> isabstract ct (target w t)"
    and params: "init_params (ct (target w t)) = pre @ p # post"
    and reached: "resolve_deps (resolve n ct) (cname (ct (target w t))) pre [] w
                    = Some (Inr deps, w1)"
    and typed: "pname p \<noteq> ''self''" "kind p = POSITIONAL_OR_KEYWORD" "annotation p = Some a"
    and fails: "resolve n ct a w1 = Some (Inl (ValueError m), w2)"
  shows "(pdefault p = None \<longrightarrow>
            resolve (Suc n) ct t w =
              Some (Inl (ValueError (''Cannot resolve dependency '' @ quoted (pname p)
                      @ '' for '' @ quoted (cname (ct (target w t))) @ '': '' @ m)), w2))
       \<and> (\<forall>d. pdefault p = Some d \<longrightarrow>
            resolve (Suc n) ct t w =
              construct_with ct (target w t)
                (resolve_deps (resolve n ct) (cname (ct (target w t))) post
                   (dict_set deps (pname p) d)
                   (emit WARNING (''Optional dependency '' @ quoted (pname p) @ '' for ''
                      @ quoted (cname (ct (target w t)))
                      @ '' could not be resolved, using default value.'') w2)))"
proof -
  note at = resolve_at_param[OF concrete params reached]
  note step = deps_injected[OF typed]
  show ?thesis
    by (simp add: at step fails construct_with_Some msg_cannot_resolve_def msg_optional_def)
qed

theorem failed_resolution_policy_witness:
  "resolve (Suc (Suc 0)) (taskbuddy_classes ''/srv/TaskBuddy/src/data/csv_task_repository.py'')
       c_TaskManagerService unwired
     = Some (Inl (ValueError (''Cannot resolve dependency '' @ quoted ''task_repository''
               @ '' for '' @ quoted ''TaskManagerService''
               @ '': No concrete implementation registered for abstraction: ITaskRepository'')),
             unwired)
   \<and> resolve (Suc (Suc 0)) (taskbuddy_classes ''/srv/TaskBuddy/src/data/csv_task_repository.py'')
       c_CsvTaskRepository unwired
     = Some (Inr (VRef 0),
         \<lparr>registrations = Map.empty,
          heap = [\<lparr>obj_class = c_CsvTaskRepository,
                   obj_fields = [(''file_path'', VStr ''/srv/TaskBuddy/data/csv/sample_data.csv'')]\<rparr>],
          log = [(WARNING, ''Optional dependency '' @ quoted ''file_path'' @ '' for ''
                    @ quoted ''CsvTaskRepository''
                    @ '' could not be resolved, using default value.''),
                 (DEBUG, ''Resolving CsvTaskRepository with dependencies: [''
                    @ quoted ''file_path'' @ '']'')]\<rparr>)"
proof -
  let ?f = "''/srv/TaskBuddy/src/data/csv_task_repository.py''"
  let ?ct = "taskbuddy_classes ?f"
  have tms: "?ct c_TaskManagerService = TaskManagerService_class"
    and csv: "?ct c_CsvTaskRepository = CsvTaskRepository_class ?f"
    and itr: "?ct c_ITaskRepository = ITaskRepository_class"
    by (simp_all add: taskbuddy_classes_def class_names)
  have tg: "target unwired c_TaskManagerService = c_TaskManagerService"
    "target unwired c_CsvTaskRepository = c_CsvTaskRepository"
    "target unwired c_ITaskRepository = c_ITaskRepository"
    by (simp_all add: target_def unwired_def)
  have c1: "\<not> isabstract ?ct (target unwired c_TaskManagerService)"
    by (simp add: tg tms isabstract_def TaskManagerService_class_def)
  have p1: "init_params (?ct (target unwired c_TaskManagerService)) =
      [self_param] @ \<lparr>pname = ''task_repository'', kind = POSITIONAL_OR_KEYWORD,
          annotation = Some c_ITaskRepository, pdefault = None\<rparr> # []"
    by (simp add: tg tms TaskManagerService_class_def)
  have r1: "resolve_deps (resolve (Suc 0) ?ct) (cname (?ct (target unwired c_TaskManagerService)))
      [self_param] [] unwired = Some (Inr [], unwired)"
    by (simp add: self_param_def resolve_deps.simps)
  have f1: "resolve (Suc 0) ?ct c_ITaskRepository unwired
      = Some (Inl (ValueError (msg_unregistered ''ITaskRepository'')), unwired)"
    by (simp add: resolve_Suc tg itr isabstract_def ITaskRepository_class_def
          repository_operations_def)
  have c2: "\<not> isabstract ?ct (target unwired c_CsvTaskRepository)"
    by (simp add: tg csv isabstract_def CsvTaskRepository_class_def)
  have p2: "init_params (?ct (target unwired c_CsvTaskRepository)) =
      [self_param] @ \<lparr>pname = ''file_path'', kind = POSITIONAL_OR_KEYWORD,
          annotation = Some c_str, pdefault = Some VNone\<rparr> # []"
    by (simp add: tg csv CsvTaskRepository_class_def)
  have r2: "resolve_deps (resolve (Suc 0) ?ct) (cname (?ct (target unwired c_CsvTaskRepository)))
      [self_param] [] unwired = Some (Inr [], unwired)"
    by (simp add: self_param_def resolve_deps.simps)
  have f2: "resolve (Suc 0) ?ct c_str unwired
      = Some (Inl (ValueError (msg_cannot_resolve ''args'' ''str'' msg_missing_hint)), unwired)"
    by (rule resolve_str_fails) (simp add: unwired_def)
  have p: "default_file_path ?f = ''/srv/TaskBuddy/data/csv/sample_data.csv''"
    by (simp add: default_file_path_def dirname_def path_join_def join_step_def)
  have a: "resolve (Suc (Suc 0)) ?ct c_TaskManagerService unwired
     = Some (Inl (ValueError (''Cannot resolve dependency '' @ quoted ''task_repository''
               @ '' for '' @ quoted ''TaskManagerService''
               @ '': No concrete implementation registered for abstraction: ITaskRepository'')),
             unwired)"
    using failed_resolution_policy[OF c1 p1 r1 _ _ _ f1]
    by (simp add: tg tms TaskManagerService_class_def msg_unregistered_def)
  have b: "resolve (Suc (Suc 0)) ?ct c_CsvTaskRepository unwired
     = construct_with ?ct c_CsvTaskRepository
         (resolve_deps (resolve (Suc 0) ?ct) ''CsvTaskRepository'' []
            (dict_set [] ''file_path'' VNone)
            (emit WARNING (''Optional dependency '' @ quoted ''file_path'' @ '' for ''
                      @ quoted ''CsvTaskRepository''
                      @ '' could not be resolved, using default value.'') unwired))"
    using failed_resolution_policy[OF c2 p2 r2 _ _ _ f2]
    by (simp add: tg csv CsvTaskRepository_class_def)
  show ?thesis
    by (rule conjI, rule a, subst b)
       (simp add: construct_with_def instantiate_def emit_def csv CsvTaskRepository_class_def
          CsvTaskRepository_init_def p repr_keys_def quoted_def unwired_def)
qed

section \<open>Parameters of the other kinds\<close>

text \<open>
  C10, as the code has it. Let the loop over the parameters of the class that \<open>t\<close> is
  resolved to reach a parameter \<open>p\<close> that is not positional-or-keyword (keyword-only,
  positional-only, \<open>*args\<close>, \<open>**kwargs\<close>), annotated or not. The step at \<open>p\<close> does not call
  \<open>resolve\<close>: it is the same for every function in the place of the recursive call, also
  one that never returns, and it leaves the world as it is. With a default, the default is
  the argument and the loop goes on; without one, \<open>resolve\<close> fails with the error that \<open>p\<close>
  is missing a type hint or a default value. A parameter that the loop does not reach,
  because a parameter before it fails, has no such effect.
\<close>

theorem other_kinds_not_injected:
  assumes concrete: "\<not> isabstract ct (target w t)"
    and params: "init_params (ct (target w t)) = pre @ p # post"
    and reached: "resolve_deps (resolve n ct) (cname (ct (target w t))) pre [] w
                    = Some (Inr deps, w1)"
    and other: "pname p \<noteq> ''self''" "kind p \<noteq> POSITIONAL_OR_KEYWORD"
  shows "(\<forall>rec. resolve_deps rec (cname (ct (target w t))) [p] deps w1 =
            (case pdefault p of
               Some d \<Rightarrow> Some (Inr (dict_set deps (pname p) d), w1)
             | None \<Rightarrow> Some (Inl (ValueError (''Cannot resolve dependency '' @ quoted (pname p)
                          @ '' for '' @ quoted (cname (ct (target w t)))
                          @ '': Missing type hint or default value.'')), w1)))
       \<and> (\<forall>d. pdefault p = Some d \<longrightarrow>
            resolve (Suc n) ct t w =
              construct_with ct (target w t)
                (resolve_deps (resolve n ct) (cname (ct (target w t))) post
                   (dict_set deps (pname p) d) w1))
       \<and> (pdefault p = None \<longrightarrow>
            resolve (Suc n) ct t w =
              Some (Inl (ValueError (''Cannot resolve dependency '' @ quoted (pname p)
                      @ '' for '' @ quoted (cname (ct (target w t)))
                      @ '': Missing type hint or default value.'')), w1))"
proof -
  have ni: "\<not> (kind p = POSITIONAL_OR_KEYWORD \<and> annotation p \<noteq> None)"
    using other(2) by simp
  note at = resolve_at_param[OF concrete params reached]
  note step = deps_not_injected[OF other(1) ni]
  have one: "\<forall>rec. resolve_deps rec (cname (ct (target w t))) [p] deps w1 =
            (case pdefault p of
               Some d \<Rightarrow> Some (Inr (dict_set deps (pname p) d), w1)
             | None \<Rightarrow> Some (Inl (ValueError (''Cannot resolve dependency '' @ quoted (pname p)
                          @ '' for '' @ quoted (cname (ct (target w t)))
                          @ '': Missing type hint or default value.'')), w1))"
    by (cases "pdefault p") (simp_all add: step msg_cannot_resolve_def msg_missing_hint_def)
  have two: "\<forall>d. pdefault p = Some d \<longrightarrow>
            resolve (Suc n) ct t w =
              construct_with ct (target w t)
                (resolve_deps (resolve n ct) (cname (ct (target w t))) post
                   (dict_set deps (pname p) d) w1)"
    by (simp add: at step)
  have three: "pdefault p = None \<longrightarrow>
            resolve (Suc n) ct t w =
              Some (Inl (ValueError (''Cannot resolve dependency '' @ quoted (pname p)
                      @ '' for '' @ quoted (cname (ct (target w t)))
                      @ '': Missing type hint or default value.'')), w1)"
    by (simp add: at step construct_with_Some msg_cannot_resolve_def msg_missing_hint_def)
  from one two three show ?thesis by blast
qed

theorem other_kinds_not_injected_witness:
  "resolve_deps (\<lambda>t w. None) ''str''
       [\<lparr>pname = ''args'', kind = VAR_POSITIONAL, annotation = None, pdefault = None\<rparr>] [] unwired
     = Some (Inl (ValueError (''Cannot resolve dependency '' @ quoted ''args''
               @ '' for '' @ quoted ''str'' @ '': Missing type hint or default value.'')), unwired)
   \<and> resolve (Suc 0) (taskbuddy_classes ''/srv/TaskBuddy/src/data/csv_task_repository.py'')
       c_str unwired
     = Some (Inl (ValueError (''Cannot resolve dependency '' @ quoted ''args''
               @ '' for '' @ quoted ''str'' @ '': Missing type hint or default value.'')), unwired)"
proof -
  let ?ct = "taskbuddy_classes ''/srv/TaskBuddy/src/data/csv_task_repository.py''"
  let ?args = "\<lparr>pname = ''args'', kind = VAR_POSITIONAL, annotation = None, pdefault = None\<rparr>"
  let ?kwargs = "\<lparr>pname = ''kwargs'', kind = VAR_KEYWORD, annotation = None, pdefault = None\<rparr>"
  let ?self = "\<lparr>pname = ''self'', kind = POSITIONAL_ONLY, annotation = None, pdefault = None\<rparr>"
  have str: "?ct c_str = plain_class c_str [c_str, c_object]"
    by (simp add: taskbuddy_classes_def class_names)
  have tg: "target unwired c_str = c_str"
    by (simp add: target_def unwired_def)
  have c: "\<not> isabstract ?ct (target unwired c_str)"
    by (simp add: tg str isabstract_def plain_class_def)
  have p: "init_params (?ct (target unwired c_str)) = [?self] @ ?args # [?kwargs]"
    by (simp add: tg str plain_class_def object_init_params_def)
  have r: "resolve_deps (resolve 0 ?ct) (cname (?ct (target unwired c_str))) [?self] [] unwired
             = Some (Inr [], unwired)"
    by (simp add: resolve_deps.simps)
  have n: "cname (?ct (target unwired c_str)) = ''str''"
    unfolding tg str by (simp add: plain_class_def c_str_def)
  from other_kinds_not_injected[OF c p r] show ?thesis
    by (simp add: n)
qed

text \<open>
  The claim as it is worded fails where a parameter before the one in question fails:
  \<open>Exporter\<close> has a \<open>**options\<close> parameter without a default, and with \<open>IClock\<close>
  unregistered \<open>resolve(Exporter)\<close> fails at \<open>clock\<close>, with the error of the unresolved
  contract and not with the error of a missing type hint.
\<close>

theorem other_kinds_counterexample:
  "\<not> isabstract (example_classes ''/srv/TaskBuddy/src/data/csv_task_repository.py'') c_Exporter
   \<and> init_params (example_classes ''/srv/TaskBuddy/src/data/csv_task_repository.py'' c_Exporter) ! 2
       = \<lparr>pname = ''options'', kind = VAR_KEYWORD, annotation = None, pdefault = None\<rparr>
   \<and> resolve (Suc (Suc 0)) (example_classes ''/srv/TaskBuddy/src/data/csv_task_repository.py'')
       c_Exporter unwired
     = Some (Inl (ValueError (msg_cannot_resolve ''clock'' ''Exporter''
                                (msg_unregistered ''IClock''))), unwired)
   \<and> msg_cannot_resolve ''clock'' ''Exporter'' (msg_unregistered ''IClock'')
       \<noteq> msg_cannot_resolve ''options'' ''Exporter'' msg_missing_hint"
  by (simp add: resolve_eval example_defs example_names self_param_def unwired_def message_defs)

section \<open>Failures of a constructor\<close>

text \<open>
  C3, as the code has it. An error raised by the constructor of the class that \<open>t\<close> is
  resolved to is the error of \<open>resolve\<close>, unchanged, whatever its class. An error that
  comes out of the recursive resolution of a parameter is passed on unchanged when it is
  not a \<open>ValueError\<close>, whether the parameter has a default or not. A \<open>ValueError\<close> raised by
  the constructor of a dependency is caught with the container's own errors: it is wrapped
  in a new message, or the default of the parameter takes the place of the dependency.
\<close>

theorem construction_failure_propagates:
  assumes concrete: "\<not> isabstract ct (target w t)"
  shows "(\<forall>deps wd e.
            resolve_deps (resolve n ct) (cname (ct (target w t)))
              (init_params (ct (target w t))) [] w = Some (Inr deps, wd) \<and>
            construct (ct (target w t)) (isinstance ct (heap wd)) deps = Inl e \<longrightarrow>
            resolve (Suc n) ct t w =
              Some (Inl e, emit DEBUG (''Resolving '' @ cname (ct (target w t))
                             @ '' with dependencies: '' @ repr_keys deps) wd))
       \<and> (\<forall>pre p post deps w1 a e w2.
            init_params (ct (target w t)) = pre @ p # post \<and>
            resolve_deps (resolve n ct) (cname (ct (target w t))) pre [] w
              = Some (Inr deps, w1) \<and>
            pname p \<noteq> ''self'' \<and> kind p = POSITIONAL_OR_KEYWORD \<and> annotation p = Some a \<and>
            resolve n ct a w1 = Some (Inl e, w2) \<and> \<not> is_ValueError e \<longrightarrow>
            resolve (Suc n) ct t w = Some (Inl e, w2))"
proof (intro conjI allI impI)
  fix deps wd e
  assume h: "resolve_deps (resolve n ct) (cname (ct (target w t)))
              (init_params (ct (target w t))) [] w = Some (Inr deps, wd) \<and>
            construct (ct (target w t)) (isinstance ct (heap wd)) deps = Inl e"
  then show "resolve (Suc n) ct t w =
              Some (Inl e, emit DEBUG (''Resolving '' @ cname (ct (target w t))
                             @ '' with dependencies: '' @ repr_keys deps) wd)"
    using concrete by (simp add: resolve_construct instantiate_def)
next
  fix pre p post deps w1 a e w2
  assume h: "init_params (ct (target w t)) = pre @ p # post \<and>
            resolve_deps (resolve n ct) (cname (ct (target w t))) pre [] w
              = Some (Inr deps, w1) \<and>
            pname p \<noteq> ''self'' \<and> kind p = POSITIONAL_OR_KEYWORD \<and> annotation p = Some a \<and>
            resolve n ct a w1 = Some (Inl e, w2) \<and> \<not> is_ValueError e"
  from h have ps: "init_params (ct (target w t)) = pre @ p # post"
    and rd: "resolve_deps (resolve n ct) (cname (ct (target w t))) pre [] w
              = Some (Inr deps, w1)"
    and ty: "pname p \<noteq> ''self''" "kind p = POSITIONAL_OR_KEYWORD" "annotation p = Some a"
    and fl: "resolve n ct a w1 = Some (Inl e, w2)" "\<not> is_ValueError e"
    by simp_all
  note at = resolve_at_param[OF concrete ps rd]
  have step: "resolve_deps (resolve n ct) (cname (ct (target w t))) (p # post) deps w1
                       = Some (Inl e, w2)"
    by (simp add: deps_injected[OF ty] fl)
  show "resolve (Suc n) ct t w = Some (Inl e, w2)"
    by (simp add: at step construct_with_Some)
qed

theorem construction_failure_propagates_witness:
  "resolve (Suc 0) (example_classes ''/srv/TaskBuddy/src/data/csv_task_repository.py'')
       c_FailingRepository unwired
     = Some (Inl (ValueError ''backing store unavailable''),
             emit DEBUG ''Resolving FailingRepository with dependencies: []'' unwired)
   \<and> resolve (Suc (Suc 0)) (example_classes ''/srv/TaskBuddy/src/data/csv_task_repository.py'')
       c_TaskManagerService (wired c_MissingFileRepository)
     = Some (Inl (FileNotFoundError ''tasks.db''),
             emit DEBUG ''Resolving MissingFileRepository with dependencies: []''
               (wired c_MissingFileRepository))"
proof -
  let ?ct = "example_classes ''/srv/TaskBuddy/src/data/csv_task_repository.py''"
  let ?w = "wired c_MissingFileRepository"
  have fr: "?ct c_FailingRepository = repository_class ''FailingRepository'' c_FailingRepository []
          (\<lambda>isinst kw. Inl (ValueError ''backing store unavailable''))"
    and mr: "?ct c_MissingFileRepository =
          repository_class ''MissingFileRepository'' c_MissingFileRepository []
          (\<lambda>isinst kw. Inl (FileNotFoundError ''tasks.db''))"
    and tms: "?ct c_TaskManagerService = TaskManagerService_class"
    by (simp_all add: example_classes_def taskbuddy_classes_def example_names class_names)
  have tg: "target unwired c_FailingRepository = c_FailingRepository"
    "target ?w c_TaskManagerService = c_TaskManagerService"
    "target ?w c_ITaskRepository = c_MissingFileRepository"
    by (simp_all add: target_def unwired_def wired_def class_names)
  have c1: "\<not> isabstract ?ct (target unwired c_FailingRepository)"
    by (simp add: tg fr isabstract_def repository_class_def)
  have d1: "resolve_deps (resolve 0 ?ct) (cname (?ct (target unwired c_FailingRepository)))
              (init_params (?ct (target unwired c_FailingRepository))) [] unwired
            = Some (Inr [], unwired)"
    by (simp add: tg fr repository_class_def self_param_def resolve_deps.simps)
  have e1: "construct (?ct (target unwired c_FailingRepository))
              (isinstance ?ct (heap unwired)) [] = Inl (ValueError ''backing store unavailable'')"
    by (simp add: tg fr repository_class_def)
  have a: "resolve (Suc 0) ?ct c_FailingRepository unwired
     = Some (Inl (ValueError ''backing store unavailable''),
             emit DEBUG ''Resolving FailingRepository with dependencies: []'' unwired)"
    using construction_failure_propagates[OF c1, of 0] d1 e1
    by (simp add: tg fr repository_class_def repr_keys_def)
  have c2: "\<not> isabstract ?ct (target ?w c_TaskManagerService)"
    by (simp add: tg tms isabstract_def TaskManagerService_class_def)
  have p2: "init_params (?ct (target ?w c_TaskManagerService)) =
      [self_param] @ \<lparr>pname = ''task_repository'', kind = POSITIONAL_OR_KEYWORD,
          annotation = Some c_ITaskRepository, pdefault = None\<rparr> # []"
    by (simp add: tg tms TaskManagerService_class_def)
  have r2: "resolve_deps (resolve (Suc 0) ?ct) (cname (?ct (target ?w c_TaskManagerService)))
      [self_param] [] ?w = Some (Inr [], ?w)"
    by (simp add: self_param_def resolve_deps.simps)
  have f2: "resolve (Suc 0) ?ct c_ITaskRepository ?w
      = Some (Inl (FileNotFoundError ''tasks.db''),
              emit DEBUG ''Resolving MissingFileRepository with dependencies: []'' ?w)"
    by (simp add: resolve_Suc tg mr isabstract_def repository_class_def self_param_def
          resolve_deps.simps construct_with_def instantiate_def repr_keys_def)
  have b: "resolve (Suc (Suc 0)) ?ct c_TaskManagerService ?w
     = Some (Inl (FileNotFoundError ''tasks.db''),
             emit DEBUG ''Resolving MissingFileRepository with dependencies: []'' ?w)"
  proof -
    let ?p = "\<lparr>pname = ''task_repository'', kind = POSITIONAL_OR_KEYWORD,
          annotation = Some c_ITaskRepository, pdefault = None\<rparr>"
    have "init_params (?ct (target ?w c_TaskManagerService)) = [self_param] @ ?p # [] \<and>
          resolve_deps (resolve (Suc 0) ?ct) (cname (?ct (target ?w c_TaskManagerService)))
            [self_param] [] ?w = Some (Inr [], ?w) \<and>
          pname ?p \<noteq> ''self'' \<and> kind ?p = POSITIONAL_OR_KEYWORD \<and>
          annotation ?p = Some c_ITaskRepository \<and>
          resolve (Suc 0) ?ct c_ITaskRepository ?w
            = Some (Inl (FileNotFoundError ''tasks.db''),
                emit DEBUG ''Resolving MissingFileRepository with dependencies: []'' ?w) \<and>
          \<not> is_ValueError (FileNotFoundError ''tasks.db'')"
      using p2 r2 f2 by simp
    with construction_failure_propagates[OF c2, of "Suc 0", THEN conjunct2] show ?thesis
      by blast
  qed
  from a b show ?thesis by (rule conjI)
qed

text \<open>
  The claim as it is worded fails for a constructor that raises a \<open>ValueError\<close> while its
  class is instantiated as a dependency: with the contract registered to
  \<open>FailingRepository\<close>, \<open>resolve(TaskManagerService)\<close> raises a new error with another
  message, and \<open>resolve(OfflineService)\<close>, whose parameter has a default, returns an
  instance built with the default.
\<close>

theorem construction_failure_counterexample:
  "construct (example_classes ''/srv/TaskBuddy/src/data/csv_task_repository.py''
               c_FailingRepository)
       (isinstance (example_classes ''/srv/TaskBuddy/src/data/csv_task_repository.py'') []) []
     = Inl (ValueError ''backing store unavailable'')
   \<and> map_option fst
       (resolve (Suc (Suc 0)) (example_classes ''/srv/TaskBuddy/src/data/csv_task_repository.py'')
          c_TaskManagerService (wired c_FailingRepository))
     = Some (Inl (ValueError (msg_cannot_resolve ''task_repository'' ''TaskManagerService''
                                ''backing store unavailable'')))
   \<and> msg_cannot_resolve ''task_repository'' ''TaskManagerService'' ''backing store unavailable''
       \<noteq> ''backing store unavailable''
   \<and> map_option fst
       (resolve (Suc (Suc 0)) (example_classes ''/srv/TaskBuddy/src/data/csv_task_repository.py'')
          c_OfflineService (wired c_FailingRepository))
     = Some (Inr (VRef 0))"
  by (simp add: resolve_eval example_defs example_names taskbuddy_defs class_names
        wired_def message_defs)

section \<open>Fresh instances\<close>

lemma dict_set_entries: "set (dict_set d k v) \<subseteq> set d \<union> {(k, v)}"
  by (induction d) (auto split: if_splits)

text \<open>
  Every argument that the loop collects is the address of an instance created during the
  loop, or the default of one of the parameters.
\<close>

lemma resolve_deps_arguments:
  assumes rec_new: "\<And>t w v w'. rec t w = Some (Inr v, w') \<Longrightarrow>
            v = VRef (length (heap w') - 1) \<and> length (heap w) < length (heap w')"
    and rec_frame: "\<And>t w r w'. rec t w = Some (r, w') \<Longrightarrow>
            registrations w' = registrations w \<and> (\<exists>new. heap w' = heap w @ new)"
  shows "resolve_deps rec cls ps deps w = Some (Inr deps', w') \<Longrightarrow>
         k \<le> length (heap w) \<Longrightarrow>
         \<forall>(name, x) \<in> set deps.
            (\<exists>a. x = VRef a \<and> k \<le> a \<and> a < length (heap w)) \<or>
            (\<exists>q \<in> Q. pname q = name \<and> pdefault q = Some x) \<Longrightarrow>
         set ps \<subseteq> Q \<Longrightarrow>
         \<forall>(name, x) \<in> set deps'.
            (\<exists>a. x = VRef a \<and> k \<le> a \<and> a < length (heap w')) \<or>
            (\<exists>q \<in> Q. pname q = name \<and> pdefault q = Some x)"
proof (induction ps arbitrary: deps w)
  case Nil
  then show ?case by simp
next
  case (Cons p ps)
  have sub: "set ps \<subseteq> Q" and pQ: "p \<in> Q" using Cons.prems(4) by auto
  have with_default: "\<forall>(name, x) \<in> set (dict_set deps (pname p) d).
            (\<exists>a. x = VRef a \<and> k \<le> a \<and> a < length (heap w1)) \<or>
            (\<exists>q \<in> Q. pname q = name \<and> pdefault q = Some x)"
    if "pdefault p = Some d" and "length (heap w) \<le> length (heap w1)" for d w1
  proof (clarify)
    fix name x
    assume "(name, x) \<in> set (dict_set deps (pname p) d)"
      and "\<not> (\<exists>q \<in> Q. pname q = name \<and> pdefault q = Some x)"
    with dict_set_entries[of deps "pname p" d] that(1) pQ have "(name, x) \<in> set deps"
      by auto
    with Cons.prems(3) \<open>\<not> (\<exists>q \<in> Q. pname q = name \<and> pdefault q = Some x)\<close>
    obtain a where "x = VRef a" "k \<le> a" "a < length (heap w)" by fastforce
    with that(2) show "\<exists>a. x = VRef a \<and> k \<le> a \<and> a < length (heap w1)" by auto
  qed
  show ?case
  proof (cases "pname p = ''self''")
    case True
    with Cons.prems have "resolve_deps rec cls ps deps w = Some (Inr deps', w')"
      by (simp add: deps_self)
    from Cons.IH[OF this Cons.prems(2,3) sub] show ?thesis .
  next
    case notself: False
    show ?thesis
    proof (cases "kind p = POSITIONAL_OR_KEYWORD \<and> annotation p \<noteq> None")
      case False
      show ?thesis
      proof (cases "pdefault p")
        case None
        with Cons.prems(1) show ?thesis by (simp add: deps_not_injected[OF notself False])
      next
        case (Some d)
        with Cons.prems(1)
        have "resolve_deps rec cls ps (dict_set deps (pname p) d) w = Some (Inr deps', w')"
          by (simp add: deps_not_injected[OF notself False])
        from Cons.IH[OF this Cons.prems(2) with_default[OF Some] sub] show ?thesis by simp
      qed
    next
      case True
      then obtain a where a: "kind p = POSITIONAL_OR_KEYWORD" "annotation p = Some a" by auto
      note step = deps_injected[OF notself a]
      from Cons.prems(1) obtain r1 w1 where r1: "rec a w = Some (r1, w1)"
        by (cases "rec a w") (auto simp: step)
      from rec_frame[OF r1] have grow: "length (heap w) \<le> length (heap w1)" by auto
      with Cons.prems(2) have k1: "k \<le> length (heap w1)" by simp
      show ?thesis
      proof (cases r1)
        case (Inr v)
        with Cons.prems(1) r1
        have next_step: "resolve_deps rec cls ps (dict_set deps (pname p) v) w1 = Some (Inr deps', w')"
          by (simp add: step)
        from rec_new[OF r1[unfolded Inr]]
        have v: "v = VRef (length (heap w1) - 1)" "length (heap w) < length (heap w1)" by auto
        have inv: "\<forall>(name, x) \<in> set (dict_set deps (pname p) v).
            (\<exists>a. x = VRef a \<and> k \<le> a \<and> a < length (heap w1)) \<or>
            (\<exists>q \<in> Q. pname q = name \<and> pdefault q = Some x)"
        proof (clarify)
          fix name x
          assume mem: "(name, x) \<in> set (dict_set deps (pname p) v)"
            and nd: "\<not> (\<exists>q \<in> Q. pname q = name \<and> pdefault q = Some x)"
          from mem dict_set_entries[of deps "pname p" v]
          consider "(name, x) \<in> set deps" | "x = v" by auto
          then show "\<exists>a. x = VRef a \<and> k \<le> a \<and> a < length (heap w1)"
          proof cases
            case 1
            with Cons.prems(3) nd obtain b where "x = VRef b" "k \<le> b" "b < length (heap w)"
              by fastforce
            with grow show ?thesis by auto
          next
            case 2
            with v Cons.prems(2) show ?thesis by auto
          qed
        qed
        from Cons.IH[OF next_step k1 inv sub] show ?thesis .
      next
        case (Inl e)
        show ?thesis
        proof (cases "is_ValueError e")
          case False
          with Cons.prems(1) r1 Inl show ?thesis by (simp add: step)
        next
          case ve: True
          show ?thesis
          proof (cases "pdefault p")
            case None
            with Cons.prems(1) r1 Inl ve show ?thesis by (simp add: step)
          next
            case (Some d)
            with Cons.prems(1) r1 Inl ve
            have next_step: "resolve_deps rec cls ps (dict_set deps (pname p) d)
                  (emit WARNING (msg_optional (pname p) cls) w1) = Some (Inr deps', w')"
              by (simp add: step)
            have k2: "k \<le> length (heap (emit WARNING (msg_optional (pname p) cls) w1))"
              using k1 by simp
            have inv: "\<forall>(name, x) \<in> set (dict_set deps (pname p) d).
               (\<exists>a. x = VRef a \<and> k \<le> a
                   \<and> a < length (heap (emit WARNING (msg_optional (pname p) cls) w1))) \<or>
               (\<exists>q \<in> Q. pname q = name \<and> pdefault q = Some x)"
              using with_default[OF Some grow] by simp
            from Cons.IH[OF next_step k2 inv sub] show ?thesis .
          qed
        qed
      qed
    qed
  qed
qed

text \<open>
  C6. Two calls of \<open>resolve\<close> for the same type, the second after the first, return two
  different instances, each at an address that did not exist before its call; the
  instances that existed before a call are as they were, and the registrations are
  unchanged, so that nothing of the first call is kept for the second. Every argument
  collected for the constructor is an instance created during the same call, or the
  default of a parameter.
\<close>

theorem resolve_fresh_instances:
  assumes first: "resolve n ct c w = Some (Inr v, w1)"
    and second: "resolve m ct c w1 = Some (Inr v', w2)"
  shows "v = VRef (length (heap w1) - 1) \<and> length (heap w) < length (heap w1)
       \<and> v' = VRef (length (heap w2) - 1) \<and> length (heap w1) < length (heap w2)
       \<and> v \<noteq> v'
       \<and> take (length (heap w)) (heap w1) = heap w
       \<and> take (length (heap w1)) (heap w2) = heap w1
       \<and> registrations w1 = registrations w \<and> registrations w2 = registrations w
       \<and> (\<forall>k deps wd.
            n = Suc k \<and>
            resolve_deps (resolve k ct) (cname (ct (target w c)))
              (init_params (ct (target w c))) [] w = Some (Inr deps, wd) \<longrightarrow>
            (\<forall>(name, x) \<in> set deps.
               (\<exists>a. x = VRef a \<and> length (heap w) \<le> a \<and> a < length (heap wd)) \<or>
               (\<exists>q \<in> set (init_params (ct (target w c))).
                   pname q = name \<and> pdefault q = Some x)))"
proof -
  from resolve_returns_new_instance[OF first]
  have a: "v = VRef (length (heap w1) - 1)" "length (heap w) < length (heap w1)" by auto
  from resolve_returns_new_instance[OF second]
  have b: "v' = VRef (length (heap w2) - 1)" "length (heap w1) < length (heap w2)" by auto
  from resolve_frame[OF first] obtain new1 where
    f1: "registrations w1 = registrations w" "heap w1 = heap w @ new1" by blast
  from resolve_frame[OF second] obtain new2 where
    f2: "registrations w2 = registrations w1" "heap w2 = heap w1 @ new2" by blast
  have ne: "v \<noteq> v'" using a b by auto
  have deps: "\<forall>k deps wd.
            n = Suc k \<and>
            resolve_deps (resolve k ct) (cname (ct (target w c)))
              (init_params (ct (target w c))) [] w = Some (Inr deps, wd) \<longrightarrow>
            (\<forall>(name, x) \<in> set deps.
               (\<exists>a. x = VRef a \<and> length (heap w) \<le> a \<and> a < length (heap wd)) \<or>
               (\<exists>q \<in> set (init_params (ct (target w c))).
                   pname q = name \<and> pdefault q = Some x))"
  proof (intro allI impI)
    fix k deps wd
    assume h: "n = Suc k \<and>
            resolve_deps (resolve k ct) (cname (ct (target w c)))
              (init_params (ct (target w c))) [] w = Some (Inr deps, wd)"
    then have rd: "resolve_deps (resolve k ct) (cname (ct (target w c)))
              (init_params (ct (target w c))) [] w = Some (Inr deps, wd)" by simp
    show "\<forall>(name, x) \<in> set deps.
               (\<exists>a. x = VRef a \<and> length (heap w) \<le> a \<and> a < length (heap wd)) \<or>
               (\<exists>q \<in> set (init_params (ct (target w c))).
                   pname q = name \<and> pdefault q = Some x)"
    proof (rule resolve_deps_arguments[where rec = "resolve k ct" and deps = "[]"
                  and k = "length (heap w)", OF _ _ rd])
      show "\<And>t w v w'. resolve k ct t w = Some (Inr v, w') \<Longrightarrow>
            v = VRef (length (heap w') - 1) \<and> length (heap w) < length (heap w')"
        using resolve_returns_new_instance by blast
      show "\<And>t w r w'. resolve k ct t w = Some (r, w') \<Longrightarrow>
            registrations w' = registrations w \<and> (\<exists>new. heap w' = heap w @ new)"
        by (rule resolve_frame)
    qed simp_all
  qed
  from a b f1 f2 ne deps show ?thesis by simp
qed

theorem resolve_fresh_instances_witness:
  "\<exists>w1 w2.
     resolve (Suc (Suc (Suc 0))) (taskbuddy_classes ''/srv/TaskBuddy/src/data/csv_task_repository.py'')
        c_TaskManagerService (wired c_CsvTaskRepository) = Some (Inr (VRef 1), w1)
   \<and> resolve (Suc (Suc (Suc 0))) (taskbuddy_classes ''/srv/TaskBuddy/src/data/csv_task_repository.py'')
        c_TaskManagerService w1 = Some (Inr (VRef 3), w2)
   \<and> length (heap w1) = 2 \<and> length (heap w2) = 4
   \<and> take (length (heap w1)) (heap w2) = heap w1
   \<and> registrations w2 = registrations (wired c_CsvTaskRepository)"
proof -
  let ?ct = "taskbuddy_classes ''/srv/TaskBuddy/src/data/csv_task_repository.py''"
  let ?w = "wired c_CsvTaskRepository"
  have regs: "registrations ?w c_str = None"
    "registrations ?w c_ITaskRepository = Some c_CsvTaskRepository"
    "registrations ?w c_TaskManagerService = None"
    by (simp_all add: wired_def class_names)
  from resolve_service[OF regs, of 0] obtain w1 where
    first: "resolve (Suc (Suc (Suc 0))) ?ct c_TaskManagerService ?w = Some (Inr (VRef 1), w1)"
    and h1: "length (heap w1) = 2" and g1: "registrations w1 = registrations ?w"
    by (simp add: wired_def)
  from resolve_service[of w1 0] regs g1 h1 obtain w2 where
    second: "resolve (Suc (Suc (Suc 0))) ?ct c_TaskManagerService w1 = Some (Inr (VRef 3), w2)"
    and h2: "length (heap w2) = 4"
    by (simp add: numeral_3_eq_3)
  from resolve_fresh_instances[OF first second] first second h1 h2 show ?thesis
    by auto
qed

section \<open>Registering twice\<close>

text \<open>
  C7. When a second registration for a contract succeeds after a first one, the contract
  is mapped to the class of the second locator, and from then on (in every world with
  these registrations) an instance returned by \<open>resolve\<close> for the contract is an instance
  of that class, and not of the class registered first when the two differ.
\<close>

theorem last_registration_wins:
  assumes r1: "register ct mods c l1 w = (Inr (), w1)"
    and r2: "register ct mods c l2 w1 = (Inr (), w2)"
  shows "\<exists>t1 t2.
           load_attr mods l1 = Inr (AClass t1) \<and> load_attr mods l2 = Inr (AClass t2)
         \<and> registrations w1 c = Some t1 \<and> registrations w2 c = Some t2
         \<and> (\<forall>w' n v w''.
              registrations w' = registrations w2 \<and> resolve n ct c w' = Some (Inr v, w'')
              \<longrightarrow> type_of (heap w'') v = t2 \<and> (t1 \<noteq> t2 \<longrightarrow> type_of (heap w'') v \<noteq> t1))"
proof -
  from register_success[OF r1] obtain t1 where
    t1: "load_attr mods l1 = Inr (AClass t1)" "registrations w1 = (registrations w)(c \<mapsto> t1)"
    by blast
  from register_success[OF r2] obtain t2 where
    t2: "load_attr mods l2 = Inr (AClass t2)" "registrations w2 = (registrations w1)(c \<mapsto> t2)"
    by blast
  have inst: "type_of (heap w'') v = t2"
    if "registrations w' = registrations w2" and "resolve n ct c w' = Some (Inr v, w'')"
    for w' n v w''
  proof -
    from resolve_returns_new_instance[OF that(2)]
    have v: "v = VRef (length (heap w'') - 1)" and ne: "heap w'' \<noteq> []"
      and cls: "obj_class (last (heap w'')) = target w' c" by auto
    have "target w' c = t2" using that(1) t2(2) by (simp add: target_def)
    with type_of_last[OF ne] v cls show ?thesis by simp
  qed
  show ?thesis
    by (rule exI[of _ t1], rule exI[of _ t2]) (use t1 t2 inst in auto)
qed

theorem last_registration_wins_witness:
  "\<exists>w1 w2 w3.
     register (example_classes ''/srv/TaskBuddy/src/data/csv_task_repository.py'') example_modules
        c_ITaskRepository ''examples.FailingRepository'' (new_container [] []) = (Inr (), w1)
   \<and> register (example_classes ''/srv/TaskBuddy/src/data/csv_task_repository.py'') example_modules
        c_ITaskRepository ''data.csv_task_repository.CsvTaskRepository'' w1 = (Inr (), w2)
   \<and> resolve (Suc (Suc 0)) (example_classes ''/srv/TaskBuddy/src/data/csv_task_repository.py'')
        c_ITaskRepository w2 = Some (Inr (VRef 0), w3)
   \<and> type_of (heap w3) (VRef 0) = c_CsvTaskRepository
   \<and> type_of (heap w3) (VRef 0) \<noteq> c_FailingRepository"
proof -
  let ?ct = "example_classes ''/srv/TaskBuddy/src/data/csv_task_repository.py''"
  obtain w1 where r1: "register ?ct example_modules c_ITaskRepository
        ''examples.FailingRepository'' (new_container [] []) = (Inr (), w1)"
    and g1: "registrations w1 = [c_ITaskRepository \<mapsto> c_FailingRepository]" "heap w1 = []"
    by (simp add: register_eval example_defs example_names class_names taskbuddy_defs)
  obtain w2 where r2: "register ?ct example_modules c_ITaskRepository
        ''data.csv_task_repository.CsvTaskRepository'' w1 = (Inr (), w2)"
    and g2: "registrations w2 = [c_ITaskRepository \<mapsto> c_CsvTaskRepository]" "heap w2 = []"
    using g1
    by (simp add: register_eval example_defs example_names class_names taskbuddy_defs)
  obtain w3 where r3: "resolve (Suc (Suc 0)) ?ct c_ITaskRepository w2 = Some (Inr (VRef 0), w3)"
    using g2
    by (simp add: resolve_eval example_defs example_names taskbuddy_defs class_names
          CsvTaskRepository_init_def)
  have l1: "load_attr example_modules ''examples.FailingRepository''
              = Inr (AClass c_FailingRepository)"
    and l2: "load_attr example_modules ''data.csv_task_repository.CsvTaskRepository''
              = Inr (AClass c_CsvTaskRepository)"
    by (simp_all add: load_attr_def rsplit_dot_def example_modules_def taskbuddy_modules_def)
  have ne: "c_FailingRepository \<noteq> c_CsvTaskRepository"
    by (simp add: example_names class_names)
  from last_registration_wins[OF r1 r2] l1 l2 r3 ne
  have "type_of (heap w3) (VRef 0) = c_CsvTaskRepository
      \<and> type_of (heap w3) (VRef 0) \<noteq> c_FailingRepository"
    by (metis attr.inject sum.inject(2))
  with r1 r2 r3 show ?thesis by blast
qed

section \<open>What registration checks\<close>

text \<open>
  C2, as the code has it. \<open>register\<close> fails at once, with a \<open>ValueError\<close> and the container
  unchanged, when the locator cannot be loaded (no dot in it, \<open>ImportError\<close>,
  \<open>AttributeError\<close> or \<open>ValueError\<close> of the import) and when the class it names is not a
  subclass of the contract. It succeeds exactly when the locator names a subclass of the
  contract, and then maps the contract to it. The check is \<open>issubclass\<close>: so in every
  state reached from a new container by \<open>register\<close> calls each registered contract is
  mapped to a subclass of it. Whether that class implements the operations of the
  contract is not checked.
\<close>

theorem register_checks_subclass:
  "(\<forall>e. load_attr mods l = Inl e \<and> caught_on_load e \<longrightarrow>
        register ct mods c l w = (Inl (ValueError (msg_failed_load l e)), w))
 \<and> (\<forall>t. load_attr mods l = Inr (AClass t) \<and> \<not> issubclass ct t c \<longrightarrow>
        register ct mods c l w
          = (Inl (ValueError (msg_not_impl (cname (ct t)) (cname (ct c)))), w))
 \<and> (\<forall>t. load_attr mods l = Inr (AClass t) \<and> issubclass ct t c \<longrightarrow>
        (\<exists>w'. register ct mods c l w = (Inr (), w') \<and>
              registrations w' = (registrations w)(c \<mapsto> t) \<and> heap w' = heap w))
 \<and> (\<forall>u w'. register ct mods c l w = (Inr u, w') \<longrightarrow>
        (\<exists>t. load_attr mods l = Inr (AClass t) \<and> issubclass ct t c))
 \<and> nominal_conformance ct (register_all ct mods calls (new_container h lg))"
proof -
  have a: "\<forall>e. load_attr mods l = Inl e \<and> caught_on_load e \<longrightarrow>
        register ct mods c l w = (Inl (ValueError (msg_failed_load l e)), w)"
    by (cases rule: register_cases[of mods l ct c w]) auto
  have b: "\<forall>t. load_attr mods l = Inr (AClass t) \<and> \<not> issubclass ct t c \<longrightarrow>
        register ct mods c l w
          = (Inl (ValueError (msg_not_impl (cname (ct t)) (cname (ct c)))), w)"
    by (cases rule: register_cases[of mods l ct c w]) auto
  have c: "\<forall>t. load_attr mods l = Inr (AClass t) \<and> issubclass ct t c \<longrightarrow>
        (\<exists>w'. register ct mods c l w = (Inr (), w') \<and>
              registrations w' = (registrations w)(c \<mapsto> t) \<and> heap w' = heap w)"
    by (cases rule: register_cases[of mods l ct c w]) auto
  have d: "\<forall>u w'. register ct mods c l w = (Inr u, w') \<longrightarrow>
        (\<exists>t. load_attr mods l = Inr (AClass t) \<and> issubclass ct t c)"
    using register_success by blast
  have e: "nominal_conformance ct (register_all ct mods calls (new_container h lg))"
    by (rule register_all_keeps_conformance) (rule new_container_conforms)
  from a b c d e show ?thesis by blast
qed

theorem register_checks_subclass_witness:
  "register (taskbuddy_classes ''/srv/TaskBuddy/src/data/csv_task_repository.py'')
       taskbuddy_modules c_ITaskRepository ''nowhere.Missing'' (new_container [] [])
     = (Inl (ValueError (msg_failed_load ''nowhere.Missing''
              (ImportError (''No module named '' @ quoted ''nowhere'')))), new_container [] [])
   \<and> register (taskbuddy_classes ''/srv/TaskBuddy/src/data/csv_task_repository.py'')
       taskbuddy_modules c_ITaskRepository
       ''business.task_manager_service.TaskManagerService'' (new_container [] [])
     = (Inl (ValueError (msg_not_impl ''TaskManagerService'' ''ITaskRepository'')),
        new_container [] [])
   \<and> nominal_conformance (taskbuddy_classes ''/srv/TaskBuddy/src/data/csv_task_repository.py'')
       (register_all (taskbuddy_classes ''/srv/TaskBuddy/src/data/csv_task_repository.py'')
          taskbuddy_modules
          [(c_ITaskRepository, ''business.task_manager_service.TaskManagerService''),
           (c_ITaskRepository, ''data.csv_task_repository.CsvTaskRepository'')]
          (new_container [] []))"
proof -
  let ?ct = "taskbuddy_classes ''/srv/TaskBuddy/src/data/csv_task_repository.py''"
  let ?calls = "[(c_ITaskRepository, ''business.task_manager_service.TaskManagerService''),
           (c_ITaskRepository, ''data.csv_task_repository.CsvTaskRepository'')]"
  have l1: "load_attr taskbuddy_modules ''nowhere.Missing''
              = Inl (ImportError (''No module named '' @ quoted ''nowhere''))"
    and l2: "load_attr taskbuddy_modules ''business.task_manager_service.TaskManagerService''
              = Inr (AClass c_TaskManagerService)"
    by (simp_all add: load_attr_def rsplit_dot_def taskbuddy_modules_def)
  have ns: "\<not> issubclass ?ct c_TaskManagerService c_ITaskRepository"
    by (simp add: issubclass_def taskbuddy_defs class_names)
  have nm: "cname (?ct c_TaskManagerService) = ''TaskManagerService''"
    "cname (?ct c_ITaskRepository) = ''ITaskRepository''"
    by (simp_all add: taskbuddy_defs class_names)
  note inst1 = register_checks_subclass[where ct = ?ct and mods = taskbuddy_modules
      and c = c_ITaskRepository and l = "''nowhere.Missing''" and w = "new_container [] []"
      and calls = ?calls and h = "[]" and lg = "[]"]
  note inst2 = register_checks_subclass[where ct = ?ct and mods = taskbuddy_modules
      and c = c_ITaskRepository
      and l = "''business.task_manager_service.TaskManagerService''"
      and w = "new_container [] []" and calls = ?calls and h = "[]" and lg = "[]"]
  from inst1 l1 have a: "register ?ct taskbuddy_modules c_ITaskRepository ''nowhere.Missing''
       (new_container [] [])
     = (Inl (ValueError (msg_failed_load ''nowhere.Missing''
              (ImportError (''No module named '' @ quoted ''nowhere'')))), new_container [] [])"
    by simp
  from inst2 l2 ns nm have b: "register ?ct taskbuddy_modules c_ITaskRepository
       ''business.task_manager_service.TaskManagerService'' (new_container [] [])
     = (Inl (ValueError (msg_not_impl ''TaskManagerService'' ''ITaskRepository'')),
        new_container [] [])"
    by simp
  from inst1 have c: "nominal_conformance ?ct
       (register_all ?ct taskbuddy_modules ?calls (new_container [] []))"
    by blast
  from a b c show ?thesis by blast
qed

text \<open>
  The claim as it is worded fails for a subclass of the contract that leaves operations
  abstract: \<open>PartialRepository\<close> defines one of the five operations, its registration
  succeeds, and the error comes at the first \<open>resolve\<close>.
\<close>

theorem register_conformance_counterexample:
  "fst (register (example_classes ''/srv/TaskBuddy/src/data/csv_task_repository.py'')
          example_modules c_ITaskRepository ''examples.PartialRepository'' unwired) = Inr ()
   \<and> registrations
       (snd (register (example_classes ''/srv/TaskBuddy/src/data/csv_task_repository.py'')
          example_modules c_ITaskRepository ''examples.PartialRepository'' unwired))
       c_ITaskRepository = Some c_PartialRepository
   \<and> \<not> satisfies (example_classes ''/srv/TaskBuddy/src/data/csv_task_repository.py'')
         c_PartialRepository c_ITaskRepository
   \<and> map_option fst
       (resolve (Suc 0) (example_classes ''/srv/TaskBuddy/src/data/csv_task_repository.py'')
          c_ITaskRepository
          (snd (register (example_classes ''/srv/TaskBuddy/src/data/csv_task_repository.py'')
             example_modules c_ITaskRepository ''examples.PartialRepository'' unwired)))
     = Some (Inl (ValueError (msg_unregistered ''ITaskRepository'')))"
  by (simp add: register_eval resolve_eval example_defs example_names taskbuddy_defs class_names
        unwired_def satisfies_def)

section \<open>The read-only repository\<close>

text \<open>
  C9. \<open>CsvTaskRepository\<close> provides the five operations of \<open>ITaskRepository\<close> and leaves
  none of them abstract. For every task and for every task identifier, \<open>add_task\<close>,
  \<open>update_task\<close> and \<open>delete_task\<close> raise \<open>NotImplementedError\<close>. The two reading
  operations are implemented: when the file can be read, \<open>get_all_tasks\<close> returns tasks
  parsed from its rows, and \<open>get_task_by_id\<close> returns the first of them with the
  identifier, or raises the \<open>ValueError\<close> of a task that is not found; when the file does
  not exist, \<open>get_all_tasks\<close> raises \<open>FileNotFoundError\<close>.
\<close>

theorem csv_repository_operations:
  "satisfies (taskbuddy_classes f) c_CsvTaskRepository c_ITaskRepository
   \<and> add_task self t
       = Inl (NotImplementedError ''add_task is not implemented for CsvTaskRepository yet.'')
   \<and> update_task self t
       = Inl (NotImplementedError ''update_task is not implemented for CsvTaskRepository yet.'')
   \<and> delete_task self tid
       = Inl (NotImplementedError ''delete_task is not implemented for CsvTaskRepository yet.'')
   \<and> (fs (file_path self) = None \<longrightarrow>
        get_all_tasks fs uuid_of status_of self
          = Inl (FileNotFoundError (''CSV file not found at: '' @ file_path self)))
   \<and> (\<forall>csvfile. fs (file_path self) = Some (Inr csvfile) \<longrightarrow>
        (\<exists>tasks.
           get_all_tasks fs uuid_of status_of self = Inr tasks
         \<and> set tasks \<subseteq> {x. \<exists>row \<in> set (rows csvfile). parse_row uuid_of status_of row = Some x}
         \<and> (\<forall>i. get_task_by_id fs uuid_of status_of uuid_str self i =
                (case find (\<lambda>x. task_id x = i) tasks of
                   Some x \<Rightarrow> Inr x
                 | None \<Rightarrow> Inl (ValueError (''Task with ID '' @ quoted (uuid_str i)
                                              @ '' not found.''))))))"
proof -
  have a: "satisfies (taskbuddy_classes f) c_CsvTaskRepository c_ITaskRepository"
    by (simp add: satisfies_def taskbuddy_defs class_names)
  have b: "fs (file_path self) = None \<longrightarrow>
        get_all_tasks fs uuid_of status_of self
          = Inl (FileNotFoundError (''CSV file not found at: '' @ file_path self))"
    by (simp add: get_all_tasks_def)
  have c: "\<forall>csvfile. fs (file_path self) = Some (Inr csvfile) \<longrightarrow>
        (\<exists>tasks.
           get_all_tasks fs uuid_of status_of self = Inr tasks
         \<and> set tasks \<subseteq> {x. \<exists>row \<in> set (rows csvfile). parse_row uuid_of status_of row = Some x}
         \<and> (\<forall>i. get_task_by_id fs uuid_of status_of uuid_str self i =
                (case find (\<lambda>x. task_id x = i) tasks of
                   Some x \<Rightarrow> Inr x
                 | None \<Rightarrow> Inl (ValueError (''Task with ID '' @ quoted (uuid_str i)
                                              @ '' not found.'')))))"
  proof (intro allI impI)
    fix csvfile
    assume h: "fs (file_path self) = Some (Inr csvfile)"
    define tasks where "tasks =
      (if strip (first_line csvfile) = [] then []
       else if fieldnames csvfile = [] then []
       else if \<not> set [''id'', ''title'', ''status''] \<subseteq> set (fieldnames csvfile) then []
       else List.map_filter (parse_row uuid_of status_of) (rows csvfile))"
    have g: "get_all_tasks fs uuid_of status_of self = Inr tasks"
      using h by (simp add: get_all_tasks_def tasks_def)
    have s: "set tasks \<subseteq> {x. \<exists>row \<in> set (rows csvfile). parse_row uuid_of status_of row = Some x}"
      by (auto simp: tasks_def List.map_filter_def)
    have i: "\<forall>i. get_task_by_id fs uuid_of status_of uuid_str self i =
                (case find (\<lambda>x. task_id x = i) tasks of
                   Some x \<Rightarrow> Inr x
                 | None \<Rightarrow> Inl (ValueError (''Task with ID '' @ quoted (uuid_str i)
                                              @ '' not found.'')))"
      by (simp add: get_task_by_id_def g)
    from g s i show "\<exists>tasks.
           get_all_tasks fs uuid_of status_of self = Inr tasks
         \<and> set tasks \<subseteq> {x. \<exists>row \<in> set (rows csvfile). parse_row uuid_of status_of row = Some x}
         \<and> (\<forall>i. get_task_by_id fs uuid_of status_of uuid_str self i =
                (case find (\<lambda>x. task_id x = i) tasks of
                   Some x \<Rightarrow> Inr x
                 | None \<Rightarrow> Inl (ValueError (''Task with ID '' @ quoted (uuid_str i)
                                              @ '' not found.''))))"
      by blast
  qed
  from a b c show ?thesis
    by (simp add: add_task_def update_task_def delete_task_def)
qed

theorem csv_repository_operations_witness:
  "add_task \<lparr>file_path = ''tasks.csv''\<rparr> \<lparr>task_id = 7::nat, title = ''Buy milk'', status = True\<rparr>
     = Inl (NotImplementedError ''add_task is not implemented for CsvTaskRepository yet.'')
   \<and> delete_task \<lparr>file_path = ''tasks.csv''\<rparr> (7::nat)
     = Inl (NotImplementedError ''delete_task is not implemented for CsvTaskRepository yet.'')
   \<and> get_all_tasks
       (\<lambda>p. if p = ''tasks.csv'' then
              Some (Inr \<lparr>first_line = ''id,title,status'',
                         fieldnames = [''id'', ''title'', ''status''],
                         rows = [map_of [(''id'', Some ''42''), (''title'', Some '' Call plumber ''),
                                         (''status'', Some ''pending'')],
                                 map_of [(''id'', Some ''43''), (''title'', Some ''''),
                                         (''status'', Some ''pending'')]]\<rparr>)
            else None)
       (\<lambda>s. if s = ''42'' then Some (42::nat) else if s = ''43'' then Some 43 else None)
       (\<lambda>s. if s = ''PENDING'' then Some True else None)
       \<lparr>file_path = ''tasks.csv''\<rparr>
     = Inr [\<lparr>task_id = 42, title = ''Call plumber'', status = True\<rparr>]
   \<and> get_task_by_id
       (\<lambda>p. if p = ''tasks.csv'' then
              Some (Inr \<lparr>first_line = ''id,title,status'',
                         fieldnames = [''id'', ''title'', ''status''],
                         rows = [map_of [(''id'', Some ''42''), (''title'', Some '' Call plumber ''),
                                         (''status'', Some ''pending'')],
                                 map_of [(''id'', Some ''43''), (''title'', Some ''''),
                                         (''status'', Some ''pending'')]]\<rparr>)
            else None)
       (\<lambda>s. if s = ''42'' then Some (42::nat) else if s = ''43'' then Some 43 else None)
       (\<lambda>s. if s = ''PENDING'' then Some True else None)
       (\<lambda>u. ''id'')
       \<lparr>file_path = ''tasks.csv''\<rparr> 43
     = Inl (ValueError (''Task with ID '' @ quoted ''id'' @ '' not found.''))"
proof -
  let ?src = "\<lparr>first_line = ''id,title,status'',
                         fieldnames = [''id'', ''title'', ''status''],
                         rows = [map_of [(''id'', Some ''42''), (''title'', Some '' Call plumber ''),
                                         (''status'', Some ''pending'')],
                                 map_of [(''id'', Some ''43''), (''title'', Some ''''),
                                         (''status'', Some ''pending'')]]\<rparr>"
  let ?fs = "\<lambda>p. if p = ''tasks.csv'' then Some (Inr ?src) else None"
  let ?u = "\<lambda>s. if s = ''42'' then Some (42::nat) else if s = ''43'' then Some 43 else None"
  let ?s = "\<lambda>s. if s = ''PENDING'' then Some True else None"
  let ?repo = "\<lparr>file_path = ''tasks.csv''\<rparr>"
  have up: "upper ''pending'' = ''PENDING''"
    by code_simp
  have st: "strip ''id,title,status'' = ''id,title,status''" "strip ''42'' = ''42''"
    "strip '' Call plumber '' = ''Call plumber''" "strip ''pending'' = ''pending''"
    "strip ''43'' = ''43''" "strip '''' = ''''"
    by (simp_all add: strip_def isspace_def)
  have g: "get_all_tasks ?fs ?u ?s ?repo
             = Inr [\<lparr>task_id = 42, title = ''Call plumber'', status = True\<rparr>]"
    by (simp add: get_all_tasks_def List.map_filter_def parse_row_def st up)
  note inst = csv_repository_operations[where self = ?repo and fs = ?fs and uuid_of = ?u
      and status_of = ?s and uuid_str = "\<lambda>u. ''id''" and tid = "7::nat"
      and t = "\<lparr>task_id = 7::nat, title = ''Buy milk'', status = True\<rparr>"]
  have h: "?fs (file_path ?repo) = Some (Inr ?src)" by simp
  from inst h g have i: "get_task_by_id ?fs ?u ?s (\<lambda>u. ''id'') ?repo 43
     = Inl (ValueError (''Task with ID '' @ quoted ''id'' @ '' not found.''))"
    by auto
  from inst g i show ?thesis by blast
qed

section \<open>Termination\<close>

text \<open>
  C8, as the code has it. When the dependency graph of a request (the types reached from
  the requested type through the typed parameters and the registration map) is finite
  and acyclic, \<open>resolve\<close> returns, with the same outcome for every larger bound on the
  depth. There is no detection of cycles: when resolution follows a cycle, that is, along
  a set of types each of which is resolved to a concrete class whose first parameter is
  injected and annotated with a type of the set, \<open>resolve\<close> does not return, whatever the
  depth allowed. A cycle that the loop does not enter does not prevent \<open>resolve\<close> from
  returning.
\<close>

theorem resolve_terminates_without_cycle:
  "(finite (request_graph ct w t) \<and> acyclic (request_graph ct w t) \<longrightarrow>
      (\<exists>n r. \<forall>m \<ge> n. resolve m ct t w = Some r))
 \<and> (\<forall>S. follows_cycle ct w S \<and> t \<in> S \<longrightarrow> (\<forall>n. resolve n ct t w = None))"
proof (intro conjI impI allI)
  assume h: "finite (request_graph ct w t) \<and> acyclic (request_graph ct w t)"
  then have "\<exists>n. \<forall>w'. registrations w' = registrations w \<longrightarrow> resolve n ct t w' \<noteq> None"
    by (intro resolve_terminates[of ct w t t]) simp_all
  then obtain n where "resolve n ct t w \<noteq> None" by blast
  then obtain r where r: "resolve n ct t w = Some r" by blast
  have "\<forall>m \<ge> n. resolve m ct t w = Some r"
    using resolve_mono[OF _ r] by blast
  then show "\<exists>n r. \<forall>m \<ge> n. resolve m ct t w = Some r" by blast
next
  fix S n
  assume "follows_cycle ct w S \<and> t \<in> S"
  then show "resolve n ct t w = None"
    using resolve_diverges[of ct w S t w n] by simp
qed

lemma class_names_distinct:
  "distinct [c_object, c_str, c_ABC, c_ITaskRepository, c_CsvTaskRepository,
             c_TaskManagerService]"
  by (simp add: class_names)

lemma taskbuddy_injected:
  "map (\<lambda>p. the (annotation p)) (filter injected (init_params (taskbuddy_classes f k)))
     = (if k = c_CsvTaskRepository then [c_str]
        else if k = c_TaskManagerService then [c_ITaskRepository] else [])"
proof -
  have plain: "filter injected (init_params (plain_class n bases)) = []" for n bases
    by (simp add: plain_class_def object_init_params_def injected_def)
  have itr: "filter injected (init_params ITaskRepository_class) = []"
    by (simp add: ITaskRepository_class_def object_init_params_def injected_def)
  have csv: "map (\<lambda>p. the (annotation p))
               (filter injected (init_params (CsvTaskRepository_class f))) = [c_str]"
    by (simp add: CsvTaskRepository_class_def self_param_def injected_def)
  have tms: "map (\<lambda>p. the (annotation p))
               (filter injected (init_params TaskManagerService_class)) = [c_ITaskRepository]"
    by (simp add: TaskManagerService_class_def self_param_def injected_def)
  from class_names_distinct show ?thesis
    by (simp add: taskbuddy_classes_def plain itr csv tms)
qed

lemma target_wired:
  "target (wired c) t = (if t = c_ITaskRepository then c else t)"
  by (simp add: target_def wired_def)

lemma taskbuddy_edges:
  "dep_edges (taskbuddy_classes f) (wired c_CsvTaskRepository)
     \<subseteq> {(c_ITaskRepository, c_TaskManagerService), (c_str, c_ITaskRepository),
         (c_str, c_CsvTaskRepository)}"
proof
  fix e
  assume e: "e \<in> dep_edges (taskbuddy_classes f) (wired c_CsvTaskRepository)"
  obtain u t where ut: "e = (u, t)" by (cases e)
  from e ut have u: "u \<in> set (map (\<lambda>p. the (annotation p))
      (filter injected (init_params (taskbuddy_classes f
         (if t = c_ITaskRepository then c_CsvTaskRepository else t)))))"
    by (simp add: dep_edges_def dependencies_of_def target_wired)
  show "e \<in> {(c_ITaskRepository, c_TaskManagerService), (c_str, c_ITaskRepository),
         (c_str, c_CsvTaskRepository)}"
  proof (cases "t = c_ITaskRepository")
    case True
    with u show ?thesis by (simp add: ut taskbuddy_injected)
  next
    case False
    with u have "u \<in> set (if t = c_CsvTaskRepository then [c_str]
        else if t = c_TaskManagerService then [c_ITaskRepository] else [])"
      by (simp add: taskbuddy_injected)
    then show ?thesis
      by (cases "t = c_CsvTaskRepository"; cases "t = c_TaskManagerService") (simp_all add: ut)
  qed
qed

lemma taskbuddy_graph:
  "finite (request_graph (taskbuddy_classes f) (wired c_CsvTaskRepository) t)"
  "acyclic (request_graph (taskbuddy_classes f) (wired c_CsvTaskRepository) t)"
proof -
  let ?E = "{(c_ITaskRepository, c_TaskManagerService), (c_str, c_ITaskRepository),
         (c_str, c_CsvTaskRepository)}"
  let ?rank = "\<lambda>c. if c = c_str then (0::nat) else if c = c_TaskManagerService then 2 else 1"
  have sub: "request_graph (taskbuddy_classes f) (wired c_CsvTaskRepository) t \<subseteq> ?E"
    using taskbuddy_edges[of f] by (auto simp: request_graph_def)
  show "finite (request_graph (taskbuddy_classes f) (wired c_CsvTaskRepository) t)"
    by (rule finite_subset[OF sub]) simp
  have "?E \<subseteq> measure ?rank"
    using class_names_distinct by auto
  then have "wf ?E" by (rule wf_subset[OF wf_measure])
  then have "acyclic ?E" by (rule wf_acyclic)
  then show "acyclic (request_graph (taskbuddy_classes f) (wired c_CsvTaskRepository) t)"
    using sub by (rule acyclic_subset)
qed

lemma audit_cycle:
  "follows_cycle (example_classes f) (wired c_AuditedRepository)
     {c_AuditService, c_ITaskRepository}"
  by (simp add: follows_cycle_def first_param_def target_def wired_def isabstract_def
        injected_def example_defs self_param_def example_names class_names)

theorem resolve_terminates_without_cycle_witness:
  "(\<exists>n r. \<forall>m \<ge> n. resolve m (taskbuddy_classes ''/srv/TaskBuddy/src/data/csv_task_repository.py'')
               c_TaskManagerService (wired c_CsvTaskRepository) = Some r)
 \<and> resolve 1000 (example_classes ''/srv/TaskBuddy/src/data/csv_task_repository.py'')
       c_AuditService (wired c_AuditedRepository) = None"
proof -
  let ?f = "''/srv/TaskBuddy/src/data/csv_task_repository.py''"
  note a = resolve_terminates_without_cycle[of "taskbuddy_classes ?f"
      "wired c_CsvTaskRepository" c_TaskManagerService, THEN conjunct1, rule_format]
  note b = resolve_terminates_without_cycle[of "example_classes ?f"
      "wired c_AuditedRepository" c_AuditService, THEN conjunct2, rule_format,
      of "{c_AuditService, c_ITaskRepository}" 1000]
  have "\<exists>n r. \<forall>m \<ge> n. resolve m (taskbuddy_classes ?f) c_TaskManagerService
               (wired c_CsvTaskRepository) = Some r"
    by (rule a) (simp add: taskbuddy_graph)
  moreover have "resolve 1000 (example_classes ?f) c_AuditService (wired c_AuditedRepository)
                   = None"
    by (rule b) (simp add: audit_cycle)
  ultimately show ?thesis by (rule conjI)
qed

text \<open>
  The claim as it is worded fails for a cycle that the loop does not enter:
  \<open>LedgerService\<close> depends on the contract, which is registered to \<open>LedgerRepository\<close>,
  which depends on \<open>LedgerService\<close>; but the first parameter of \<open>LedgerService\<close> is an
  unregistered contract, so \<open>resolve(LedgerService)\<close> returns, with an error.
\<close>

theorem cyclic_graph_counterexample:
  "c_ITaskRepository \<in> set (dependencies_of
       (example_classes ''/srv/TaskBuddy/src/data/csv_task_repository.py'')
       (wired c_LedgerRepository) c_LedgerService)
   \<and> c_LedgerService \<in> set (dependencies_of
       (example_classes ''/srv/TaskBuddy/src/data/csv_task_repository.py'')
       (wired c_LedgerRepository) c_ITaskRepository)
   \<and> \<not> acyclic (request_graph
       (example_classes ''/srv/TaskBuddy/src/data/csv_task_repository.py'')
       (wired c_LedgerRepository) c_LedgerService)
   \<and> resolve (Suc (Suc 0)) (example_classes ''/srv/TaskBuddy/src/data/csv_task_repository.py'')
       c_LedgerService (wired c_LedgerRepository)
     = Some (Inl (ValueError (msg_cannot_resolve ''clock'' ''LedgerService''
                                (msg_unregistered ''IClock''))),
             wired c_LedgerRepository)"
proof -
  let ?ct = "example_classes ''/srv/TaskBuddy/src/data/csv_task_repository.py''"
  let ?w = "wired c_LedgerRepository"
  have d1: "c_ITaskRepository \<in> set (dependencies_of ?ct ?w c_LedgerService)"
    and d2: "c_LedgerService \<in> set (dependencies_of ?ct ?w c_ITaskRepository)"
    by (simp_all add: dependencies_of_def target_def wired_def injected_def example_defs
          self_param_def example_names class_names)
  then have e1: "(c_ITaskRepository, c_LedgerService) \<in> dep_edges ?ct ?w"
    and e2: "(c_LedgerService, c_ITaskRepository) \<in> dep_edges ?ct ?w"
    by (simp_all add: dep_edges_def)
  have g1: "(c_ITaskRepository, c_LedgerService) \<in> request_graph ?ct ?w c_LedgerService"
    using e1 by (simp add: request_graph_def)
  have g2: "(c_LedgerService, c_ITaskRepository) \<in> request_graph ?ct ?w c_LedgerService"
    using e1 e2 by (auto simp: request_graph_def)
  from g2 g1 have "(c_LedgerService, c_LedgerService) \<in> (request_graph ?ct ?w c_LedgerService)\<^sup>+"
    by (rule trancl_into_trancl[OF r_into_trancl])
  then have cyc: "\<not> acyclic (request_graph ?ct ?w c_LedgerService)"
    by (auto simp: acyclic_def)
  have r: "resolve (Suc (Suc 0)) ?ct c_LedgerService ?w
     = Some (Inl (ValueError (msg_cannot_resolve ''clock'' ''LedgerService''
                                (msg_unregistered ''IClock''))), ?w)"
    by (simp add: resolve_eval example_defs example_names class_names self_param_def
          wired_def message_defs)
  from d1 d2 cyc r show ?thesis by blast
qed

end
